theory Spec2Isabelle
  imports Main "HOL-Library.Word" "HOL-Library.Multiset"
begin

section \<open>TiRemoteBlockInputStream: data model\<close>

text \<open>
  The embedding follows \<^verbatim>\<open>dbms/src/DataStreams/TiRemoteBlockInputStream.h\<close>.
  The counters of the source are 64-bit machine integers (\<^verbatim>\<open>uint64_t total_rows\<close>, the
  \<^verbatim>\<open>uint64\<close> fields of the protobuf summary), so they are 64-bit words here: \<open>+\<close> wraps and
  \<open>max\<close> is the unsigned maximum.
\<close>

type_synonym u64 = "64 word"

text \<open>
  Modelled from the spec: the declaration of \<^verbatim>\<open>ExecutionSummary\<close>, the value type of
  \<^verbatim>\<open>execution_summaries[index]\<close>, is not in the file. Section 3 of the spec gives the
  record its four fields, which are also the four the file assigns; a value-initialised entry
  (what \<^verbatim>\<open>operator[]\<close> of the map inserts) has all of them zero.
\<close>

record ExecutionSummary =
  time_processed_ns :: u64
  num_produced_rows :: u64
  num_iterations :: u64
  concurrency :: u64

definition ExecutionSummary_default :: ExecutionSummary where
  "ExecutionSummary_default =
     \<lparr>time_processed_ns = 0, num_produced_rows = 0, num_iterations = 0, concurrency = 0\<rparr>"

text \<open>
  Modelled from the spec: the protobuf messages are declared outside the file. Section 6 of
  the spec describes the response as optionally carrying an error message and zero or more
  execution-summary entries keyed by operator id. \<^verbatim>\<open>tipb::ExecutionSummary\<close> is one entry of
  \<^verbatim>\<open>resp.execution_summaries()\<close>, with the accessors the file calls;
  \<open>executor_id = None\<close> is \<^verbatim>\<open>has_executor_id() == false\<close>.
\<close>

record tipb_ExecutionSummary =
  executor_id :: "string option"
  pb_time_processed_ns :: u64
  pb_num_produced_rows :: u64
  pb_num_iterations :: u64
  pb_concurrency :: u64

text \<open>
  \<^verbatim>\<open>tipb::SelectResponse\<close>: \<open>resp_error = Some msg\<close> is \<^verbatim>\<open>has_error()\<close> with
  \<^verbatim>\<open>error().DebugString() == msg\<close>.
\<close>

record SelectResponse =
  resp_error :: "string option"
  resp_execution_summaries :: "tipb_ExecutionSummary list"

text \<open>
  Modelled from the spec: \<^verbatim>\<open>DecodeDetail\<close> and \<^verbatim>\<open>ConnectionProfileInfo\<close> are declared
  outside the file. Section 6 of the spec gives the decode metadata a row count and a byte
  count, section 3 gives the profile a packet count and a cumulative byte count; the fields
  are named as the file reads and writes them, and a new profile is all zero.
\<close>

record DecodeDetail =
  rows :: u64
  packet_bytes :: u64

record ConnectionProfileInfo =
  packets :: u64
  bytes :: u64

text \<open>A \<^verbatim>\<open>Block\<close> is the list of its columns; the default-constructed \<^verbatim>\<open>Block{}\<close> has none.\<close>

type_synonym 'col Block = "'col list"

text \<open>
  Modelled from the spec: the readers (\<^verbatim>\<open>ExchangeReceiver\<close>, \<^verbatim>\<open>CoprocessorReader\<close>) and the
  type of their results are declared outside the file. This is what one call
  \<^verbatim>\<open>remote_reader->nextResult(block_queue, sample_block, stream_id)\<close> hands back, the
  \<open>ResultUnit\<close> of section 6 of the spec: the fields are the ones the file reads from the
  result, and \<open>decoded_blocks\<close> are the blocks the call pushed onto \<^verbatim>\<open>block_queue\<close>, which it
  receives by reference (section 3: the queue is populated in bursts by a single fetch call).
\<close>

record 'col NextResult =
  meet_error :: bool
  error_msg :: string
  eof :: bool
  resp :: "SelectResponse option"
  call_index :: nat
  decode_detail :: DecodeDetail
  req_info :: string
  decoded_blocks :: "'col Block list"

text \<open>The lines written through \<^verbatim>\<open>log\<close>, one constructor per logging statement of the file.\<close>

datatype LogLine =
    Warning_remote_error string
  | Warning_not_found string
  | Trace_recv u64 string u64
  | Debug_finish u64

text \<open>
  Failures. \<open>Exception msg\<close> is \<^verbatim>\<open>throw Exception(msg)\<close>. \<open>UndefinedBehaviour\<close> stands for the
  two things the file does without a check: \<^verbatim>\<open>operator[]\<close> of a vector past its end, and
  \<^verbatim>\<open>front()\<close> of an empty queue.
\<close>

datatype error = Exception string | UndefinedBehaviour

text \<open>
  The member variables of the stream that the functions below read or write (the sample
  block, the name and the logger's identity are left out; what is logged is kept in
  \<open>logged\<close>). \<open>reader_pos\<close> is the state of \<^verbatim>\<open>remote_reader\<close>: the number of \<^verbatim>\<open>nextResult\<close>
  calls made so far; \<open>reader_closed\<close> records \<^verbatim>\<open>close()\<close>.
\<close>

record 'col TiRemoteBlockInputStream =
  source_num :: nat
  connection_profile_infos :: "ConnectionProfileInfo list"
  block_queue :: "'col Block list"
  execution_summaries_inited :: "bool list"
  execution_summaries :: "(string \<rightharpoonup> ExecutionSummary) list"
  logged :: "LogLine list"
  total_rows :: u64
  stream_id :: nat
  reader_pos :: nat
  reader_closed :: bool

text \<open>The constructor (lines 177-193), for a reader with \<open>n\<close> sources.\<close>

definition TiRemoteBlockInputStream_new :: "nat \<Rightarrow> nat \<Rightarrow> 'col TiRemoteBlockInputStream" where
  "TiRemoteBlockInputStream_new n sid =
     \<lparr>source_num = n,
      connection_profile_infos = replicate n \<lparr>packets = 0, bytes = 0\<rparr>,
      block_queue = [],
      execution_summaries_inited = replicate n False,
      execution_summaries = replicate n Map.empty,
      logged = [],
      total_rows = 0,
      stream_id = sid,
      reader_pos = 0,
      reader_closed = False\<rparr>"

section \<open>The execution-summary table\<close>

text \<open>
  \<^verbatim>\<open>m[k].field = v\<close> on an \<^verbatim>\<open>unordered_map\<close>: \<^verbatim>\<open>operator[]\<close> inserts a value-initialised
  entry when the key is absent, then the field is assigned.
\<close>

definition subscript_assign ::
  "(string \<rightharpoonup> ExecutionSummary) \<Rightarrow> string \<Rightarrow> (ExecutionSummary \<Rightarrow> ExecutionSummary)
     \<Rightarrow> (string \<rightharpoonup> ExecutionSummary)" where
  "subscript_assign m k f =
     m(k \<mapsto> f (case m k of None \<Rightarrow> ExecutionSummary_default | Some v \<Rightarrow> v))"

text \<open>The loop of \<^verbatim>\<open>initRemoteExecutionSummaries\<close> (lines 69-79) on the map of the slot.\<close>

fun init_loop ::
  "tipb_ExecutionSummary list \<Rightarrow> (string \<rightharpoonup> ExecutionSummary) \<Rightarrow> (string \<rightharpoonup> ExecutionSummary)" where
  "init_loop [] m = m"
| "init_loop (execution_summary # rest) m =
     (case executor_id execution_summary of
        None \<Rightarrow> init_loop rest m
      | Some k \<Rightarrow>
          (let m1 = subscript_assign m k
                      (\<lambda>v. v\<lparr>time_processed_ns := pb_time_processed_ns execution_summary\<rparr>);
               m2 = subscript_assign m1 k
                      (\<lambda>v. v\<lparr>num_produced_rows := pb_num_produced_rows execution_summary\<rparr>);
               m3 = subscript_assign m2 k
                      (\<lambda>v. v\<lparr>num_iterations := pb_num_iterations execution_summary\<rparr>);
               m4 = subscript_assign m3 k
                      (\<lambda>v. v\<lparr>concurrency := pb_concurrency execution_summary\<rparr>)
           in init_loop rest m4))"

text \<open>
  \<^verbatim>\<open>initRemoteExecutionSummaries\<close> (lines 67-81). \<^verbatim>\<open>execution_summaries[index]\<close> is touched
  only for an entry that has an executor id; \<^verbatim>\<open>execution_summaries_inited[index]\<close> always.
\<close>

definition initRemoteExecutionSummaries ::
  "SelectResponse \<Rightarrow> nat \<Rightarrow> 'col TiRemoteBlockInputStream \<Rightarrow> error + 'col TiRemoteBlockInputStream" where
  "initRemoteExecutionSummaries rsp index s =
     (if list_ex (\<lambda>e. executor_id e \<noteq> None) (resp_execution_summaries rsp)
         \<and> \<not> index < length (execution_summaries s)
      then Inl UndefinedBehaviour
      else if \<not> index < length (execution_summaries_inited s) then Inl UndefinedBehaviour
      else Inr (s\<lparr>execution_summaries :=
                    (execution_summaries s)
                      [index := init_loop (resp_execution_summaries rsp) (execution_summaries s ! index)],
                  execution_summaries_inited := (execution_summaries_inited s)[index := True]\<rparr>))"

text \<open>
  The update of one present entry (lines 104-122): every field by maximum for a streaming
  call; otherwise the time by maximum and the three counts by addition.
\<close>

definition merge_entry :: "bool \<Rightarrow> ExecutionSummary \<Rightarrow> tipb_ExecutionSummary \<Rightarrow> ExecutionSummary" where
  "merge_entry is_streaming_call current_execution_summary execution_summary =
     (if is_streaming_call
      then \<lparr>time_processed_ns =
              max (time_processed_ns current_execution_summary) (pb_time_processed_ns execution_summary),
            num_produced_rows =
              max (num_produced_rows current_execution_summary) (pb_num_produced_rows execution_summary),
            num_iterations =
              max (num_iterations current_execution_summary) (pb_num_iterations execution_summary),
            concurrency =
              max (concurrency current_execution_summary) (pb_concurrency execution_summary)\<rparr>
      else \<lparr>time_processed_ns =
              max (time_processed_ns current_execution_summary) (pb_time_processed_ns execution_summary),
            num_produced_rows =
              num_produced_rows current_execution_summary + pb_num_produced_rows execution_summary,
            num_iterations =
              num_iterations current_execution_summary + pb_num_iterations execution_summary,
            concurrency =
              concurrency current_execution_summary + pb_concurrency execution_summary\<rparr>)"

text \<open>
  The loop of \<^verbatim>\<open>addRemoteExecutionSummaries\<close> (lines 93-124) on the map of a published slot
  and the log: an entry without an id is skipped, an unknown id is logged and skipped.
\<close>

fun merge_loop ::
  "bool \<Rightarrow> tipb_ExecutionSummary list \<Rightarrow> (string \<rightharpoonup> ExecutionSummary) \<Rightarrow> LogLine list
     \<Rightarrow> (string \<rightharpoonup> ExecutionSummary) \<times> LogLine list" where
  "merge_loop is_streaming_call [] m lg = (m, lg)"
| "merge_loop is_streaming_call (execution_summary # rest) m lg =
     (case executor_id execution_summary of
        None \<Rightarrow> merge_loop is_streaming_call rest m lg
      | Some k \<Rightarrow>
          (case m k of
             None \<Rightarrow> merge_loop is_streaming_call rest m (lg @ [Warning_not_found k])
           | Some current \<Rightarrow>
               merge_loop is_streaming_call rest
                 (m(k \<mapsto> merge_entry is_streaming_call current execution_summary)) lg))"

text \<open>\<^verbatim>\<open>addRemoteExecutionSummaries\<close> (lines 83-125).\<close>

definition addRemoteExecutionSummaries ::
  "SelectResponse \<Rightarrow> nat \<Rightarrow> bool \<Rightarrow> 'col TiRemoteBlockInputStream
     \<Rightarrow> error + 'col TiRemoteBlockInputStream" where
  "addRemoteExecutionSummaries rsp index is_streaming_call s =
     (if resp_execution_summaries rsp = [] then Inr s
      else if \<not> index < length (execution_summaries_inited s) then Inl UndefinedBehaviour
      else if \<not> execution_summaries_inited s ! index
      then initRemoteExecutionSummaries rsp index s
      else if \<not> index < length (execution_summaries s) then Inl UndefinedBehaviour
      else (case merge_loop is_streaming_call (resp_execution_summaries rsp)
                   (execution_summaries s ! index) (logged s) of
              (m, lg) \<Rightarrow>
                Inr (s\<lparr>execution_summaries := (execution_summaries s)[index := m],
                       logged := lg\<rparr>)))"

text \<open>\<^verbatim>\<open>getRemoteExecutionSummaries\<close> (lines 217-220): \<open>None\<close> is the null pointer.\<close>

definition getRemoteExecutionSummaries ::
  "'col TiRemoteBlockInputStream \<Rightarrow> nat \<Rightarrow> error + (string \<rightharpoonup> ExecutionSummary) option" where
  "getRemoteExecutionSummaries s index =
     (if \<not> index < length (execution_summaries_inited s) then Inl UndefinedBehaviour
      else if execution_summaries_inited s ! index
      then (if index < length (execution_summaries s)
            then Inr (Some (execution_summaries s ! index)) else Inl UndefinedBehaviour)
      else Inr None)"

section \<open>Fetching and reading\<close>

text \<open>
  \<^verbatim>\<open>fetchRemoteResult\<close> (lines 127-174). The reader is the sequence of results its
  \<^verbatim>\<open>nextResult\<close> calls return for a stream id: \<open>remote_reader sid n\<close> is the result of call
  number \<open>n\<close>. The function calls itself on a result of zero rows, so a reader that returns such
  results forever keeps it from returning: the value is then \<open>None\<close>.
\<close>

partial_function (option) fetchRemoteResult ::
  "bool \<Rightarrow> (nat \<Rightarrow> nat \<Rightarrow> 'col NextResult) \<Rightarrow> 'col TiRemoteBlockInputStream
     \<Rightarrow> ((error + bool) \<times> 'col TiRemoteBlockInputStream) option" where
  "fetchRemoteResult is_streaming_reader remote_reader s =
     (let result = remote_reader (stream_id s) (reader_pos s);
          s1 = s\<lparr>reader_pos := Suc (reader_pos s),
                 block_queue := block_queue s @ decoded_blocks result\<rparr>
      in if meet_error result
         then Some (Inl (Exception (error_msg result)),
                    s1\<lparr>logged := logged s1 @ [Warning_remote_error (error_msg result)]\<rparr>)
         else if eof result then Some (Inr False, s1)
         else (case (case resp result of None \<Rightarrow> None | Some rp \<Rightarrow> resp_error rp) of
                 Some msg \<Rightarrow>
                   Some (Inl (Exception msg), s1\<lparr>logged := logged s1 @ [Warning_remote_error msg]\<rparr>)
               | None \<Rightarrow>
                   (case (case resp result of
                            None \<Rightarrow> Inr s1
                          | Some rp \<Rightarrow>
                              (if is_streaming_reader
                               then addRemoteExecutionSummaries rp (call_index result) True s1
                               else addRemoteExecutionSummaries rp 0 False s1)) of
                      Inl e \<Rightarrow> Some (Inl e, s1)
                    | Inr s2 \<Rightarrow>
                        (let index = (if is_streaming_reader then call_index result else 0)
                         in if \<not> index < length (connection_profile_infos s2)
                            then Some (Inl UndefinedBehaviour, s2)
                            else
                              (let info = connection_profile_infos s2 ! index;
                                   s3 = s2\<lparr>connection_profile_infos :=
                                             (connection_profile_infos s2)
                                               [index := info\<lparr>packets := packets info + 1,
                                                              bytes := bytes info
                                                                + packet_bytes (decode_detail result)\<rparr>],
                                           total_rows := total_rows s2 + rows (decode_detail result),
                                           logged := logged s2 @
                                             [Trace_recv (rows (decode_detail result)) (req_info result)
                                                (total_rows s2 + rows (decode_detail result))]\<rparr>
                               in if rows (decode_detail result) = 0
                                  then fetchRemoteResult is_streaming_reader remote_reader s3
                                  else Some (Inr True, s3))))))"

text \<open>
  \<^verbatim>\<open>readImpl\<close> (lines 204-215). The block \<open>[]\<close> is \<^verbatim>\<open>return {}\<close>; \<^verbatim>\<open>front()\<close> of an empty
  queue is undefined.
\<close>

definition pop_front ::
  "'col TiRemoteBlockInputStream \<Rightarrow> (error + 'col Block) \<times> 'col TiRemoteBlockInputStream" where
  "pop_front s =
     (case block_queue s of
        [] \<Rightarrow> (Inl UndefinedBehaviour, s)
      | block # rest \<Rightarrow> (Inr block, s\<lparr>block_queue := rest\<rparr>))"

definition readImpl ::
  "bool \<Rightarrow> (nat \<Rightarrow> nat \<Rightarrow> 'col NextResult) \<Rightarrow> 'col TiRemoteBlockInputStream
     \<Rightarrow> ((error + 'col Block) \<times> 'col TiRemoteBlockInputStream) option" where
  "readImpl is_streaming_reader remote_reader s =
     (if block_queue s = []
      then (case fetchRemoteResult is_streaming_reader remote_reader s of
              None \<Rightarrow> None
            | Some (Inl e, s') \<Rightarrow> Some (Inl e, s')
            | Some (Inr fetched, s') \<Rightarrow> if \<not> fetched then Some (Inr [], s') else Some (pop_front s'))
      else Some (pop_front s))"

text \<open>\<^verbatim>\<open>readSuffixImpl\<close> (lines 241-245): log the total, close the reader.\<close>

definition readSuffixImpl :: "'col TiRemoteBlockInputStream \<Rightarrow> 'col TiRemoteBlockInputStream" where
  "readSuffixImpl s = s\<lparr>logged := logged s @ [Debug_finish (total_rows s)], reader_closed := True\<rparr>"

section \<open>Auxiliary notions for the statements\<close>

text \<open>
  The pieces of one pass through the body of \<^verbatim>\<open>fetchRemoteResult\<close>, named so that the
  theorems can speak about them. \<open>after_nextResult\<close>: the members once \<^verbatim>\<open>nextResult\<close> has
  returned (line 129). \<open>response_error\<close>: the message of line 137. \<open>merge_payload\<close>: lines
  143-153. \<open>profile_index\<close> and \<open>count_packet\<close>: lines 157-170.
\<close>

definition after_nextResult ::
  "'col NextResult \<Rightarrow> 'col TiRemoteBlockInputStream \<Rightarrow> 'col TiRemoteBlockInputStream" where
  "after_nextResult result s =
     s\<lparr>reader_pos := Suc (reader_pos s), block_queue := block_queue s @ decoded_blocks result\<rparr>"

definition response_error :: "'col NextResult \<Rightarrow> string option" where
  "response_error result = (case resp result of None \<Rightarrow> None | Some rp \<Rightarrow> resp_error rp)"

definition merge_payload ::
  "bool \<Rightarrow> 'col NextResult \<Rightarrow> 'col TiRemoteBlockInputStream \<Rightarrow> error + 'col TiRemoteBlockInputStream" where
  "merge_payload is_streaming_reader result s1 =
     (case resp result of
        None \<Rightarrow> Inr s1
      | Some rp \<Rightarrow>
          (if is_streaming_reader
           then addRemoteExecutionSummaries rp (call_index result) True s1
           else addRemoteExecutionSummaries rp 0 False s1))"

definition profile_index :: "bool \<Rightarrow> 'col NextResult \<Rightarrow> nat" where
  "profile_index is_streaming_reader result = (if is_streaming_reader then call_index result else 0)"

definition count_packet ::
  "bool \<Rightarrow> 'col NextResult \<Rightarrow> 'col TiRemoteBlockInputStream \<Rightarrow> 'col TiRemoteBlockInputStream" where
  "count_packet is_streaming_reader result s2 =
     (let index = profile_index is_streaming_reader result;
          info = connection_profile_infos s2 ! index
      in s2\<lparr>connection_profile_infos :=
               (connection_profile_infos s2)
                 [index := info\<lparr>packets := packets info + 1,
                                bytes := bytes info + packet_bytes (decode_detail result)\<rparr>],
             total_rows := total_rows s2 + rows (decode_detail result),
             logged := logged s2 @
               [Trace_recv (rows (decode_detail result)) (req_info result)
                  (total_rows s2 + rows (decode_detail result))]\<rparr>)"

text \<open>
  One pass through the body of \<^verbatim>\<open>fetchRemoteResult\<close>: \<open>Inl y\<close> when the pass returns \<open>y\<close>
  (or throws), \<open>Inr s3\<close> when it reaches the self-call of line 172 with the members \<open>s3\<close>.
\<close>

definition fetch_step ::
  "bool \<Rightarrow> (nat \<Rightarrow> nat \<Rightarrow> 'col NextResult) \<Rightarrow> 'col TiRemoteBlockInputStream
     \<Rightarrow> ((error + bool) \<times> 'col TiRemoteBlockInputStream) + 'col TiRemoteBlockInputStream" where
  "fetch_step is_streaming_reader remote_reader s =
     (let result = remote_reader (stream_id s) (reader_pos s);
          s1 = after_nextResult result s
      in if meet_error result
         then Inl (Inl (Exception (error_msg result)),
                   s1\<lparr>logged := logged s1 @ [Warning_remote_error (error_msg result)]\<rparr>)
         else if eof result then Inl (Inr False, s1)
         else (case response_error result of
                 Some msg \<Rightarrow>
                   Inl (Inl (Exception msg), s1\<lparr>logged := logged s1 @ [Warning_remote_error msg]\<rparr>)
               | None \<Rightarrow>
                   (case merge_payload is_streaming_reader result s1 of
                      Inl e \<Rightarrow> Inl (Inl e, s1)
                    | Inr s2 \<Rightarrow>
                        if \<not> profile_index is_streaming_reader result < length (connection_profile_infos s2)
                        then Inl (Inl UndefinedBehaviour, s2)
                        else if rows (decode_detail result) = 0
                        then Inr (count_packet is_streaming_reader result s2)
                        else Inl (Inr True, count_packet is_streaming_reader result s2))))"

text \<open>
  A result that makes \<^verbatim>\<open>fetchRemoteResult\<close> fetch again: no transport failure, not the end
  of the stream, no error in the response, and zero decoded rows.
\<close>

definition empty_payload :: "'col NextResult \<Rightarrow> bool" where
  "empty_payload result \<longleftrightarrow>
     \<not> meet_error result \<and> \<not> eof result \<and> response_error result = None
       \<and> rows (decode_detail result) = 0"

text \<open>
  The members with which the pass after \<open>k\<close> self-calls of line 172 starts, when each of the
  first \<open>k\<close> passes reaches that line; \<open>None\<close> when one of them returns or throws instead.
\<close>

fun after_self_calls ::
  "nat \<Rightarrow> bool \<Rightarrow> (nat \<Rightarrow> nat \<Rightarrow> 'col NextResult) \<Rightarrow> 'col TiRemoteBlockInputStream
     \<Rightarrow> 'col TiRemoteBlockInputStream option" where
  "after_self_calls 0 is_streaming_reader remote_reader s = Some s"
| "after_self_calls (Suc k) is_streaming_reader remote_reader s =
     (case fetch_step is_streaming_reader remote_reader s of
        Inl y \<Rightarrow> None
      | Inr s3 \<Rightarrow> after_self_calls k is_streaming_reader remote_reader s3)"

text \<open>
  The rows line 164 adds for a result: those of its decode metadata, when the pass gets that
  far (the three early exits of lines 130-141 come before).
\<close>

definition counted_rows :: "'col NextResult \<Rightarrow> u64" where
  "counted_rows result =
     (if meet_error result \<or> eof result \<or> response_error result \<noteq> None then 0
      else rows (decode_detail result))"

text \<open>The consumer: up to \<open>n\<close> calls of \<^verbatim>\<open>readImpl\<close>, ended by an exception or by \<^verbatim>\<open>Block{}\<close>.
  The result is the exception, if any, and the members afterwards.\<close>

fun read_loop ::
  "nat \<Rightarrow> bool \<Rightarrow> (nat \<Rightarrow> nat \<Rightarrow> 'col NextResult) \<Rightarrow> 'col TiRemoteBlockInputStream
     \<Rightarrow> (error option \<times> 'col TiRemoteBlockInputStream) option" where
  "read_loop 0 is_streaming_reader remote_reader s = Some (None, s)"
| "read_loop (Suc n) is_streaming_reader remote_reader s =
     (case readImpl is_streaming_reader remote_reader s of
        None \<Rightarrow> None
      | Some (Inl e, s') \<Rightarrow> Some (Some e, s')
      | Some (Inr block, s') \<Rightarrow>
          if block = [] then Some (None, s') else read_loop n is_streaming_reader remote_reader s')"

text \<open>The summaries of a payload that report operator \<open>k\<close>, and the ids a payload reports.\<close>

definition entries_for :: "string \<Rightarrow> tipb_ExecutionSummary list \<Rightarrow> tipb_ExecutionSummary list" where
  "entries_for k summaries = filter (\<lambda>e. executor_id e = Some k) summaries"

definition reported_ids :: "SelectResponse \<Rightarrow> string list" where
  "reported_ids rsp = List.map_filter executor_id (resp_execution_summaries rsp)"

text \<open>A batch reader's payloads, merged one after the other as line 151 does.\<close>

fun merge_reports ::
  "SelectResponse list \<Rightarrow> 'col TiRemoteBlockInputStream \<Rightarrow> error + 'col TiRemoteBlockInputStream" where
  "merge_reports [] s = Inr s"
| "merge_reports (rsp # rest) s =
     (case addRemoteExecutionSummaries rsp 0 False s of
        Inl e \<Rightarrow> Inl e
      | Inr s' \<Rightarrow> merge_reports rest s')"

text \<open>The entry of operator \<open>k\<close> in slot \<open>i\<close>, when the merge went through.\<close>

definition slot_entry ::
  "error + 'col TiRemoteBlockInputStream \<Rightarrow> nat \<Rightarrow> string \<Rightarrow> ExecutionSummary option" where
  "slot_entry r i k = (case r of Inl e \<Rightarrow> None | Inr s \<Rightarrow> (execution_summaries s ! i) k)"

text \<open>
  What the table may do between two moments \<open>s\<close> and \<open>s'\<close>: it keeps its size, and a slot that
  is published in \<open>s\<close> is published in \<open>s'\<close> with the same operator ids.
\<close>

definition published_frozen ::
  "'col TiRemoteBlockInputStream \<Rightarrow> 'col TiRemoteBlockInputStream \<Rightarrow> bool" where
  "published_frozen s s' \<longleftrightarrow>
     length (execution_summaries_inited s') = length (execution_summaries_inited s)
     \<and> (\<forall>i < length (execution_summaries_inited s).
           execution_summaries_inited s ! i \<longrightarrow>
             execution_summaries_inited s' ! i
             \<and> dom (execution_summaries s' ! i) = dom (execution_summaries s ! i))"

text \<open>
  What \<^verbatim>\<open>fetchRemoteResult\<close> returns for a result that is not an empty payload, unless
  an index is out of range: lines 130-141 and 173.
\<close>

definition expected_outcome :: "'col NextResult \<Rightarrow> error + bool" where
  "expected_outcome result =
     (if meet_error result then Inl (Exception (error_msg result))
      else if eof result then Inr False
      else (case response_error result of Some msg \<Rightarrow> Inl (Exception msg) | None \<Rightarrow> Inr True))"

text \<open>
  The batch merge of one payload into the map of a published slot, the entry a payload's
  summary is stored as by \<^verbatim>\<open>initRemoteExecutionSummaries\<close>, and the map that holds an
  all-zero entry for each operator of a set.
\<close>

definition merge_into ::
  "SelectResponse \<Rightarrow> (string \<rightharpoonup> ExecutionSummary) \<Rightarrow> (string \<rightharpoonup> ExecutionSummary)" where
  "merge_into rsp m = fst (merge_loop False (resp_execution_summaries rsp) m [])"

definition verbatim :: "tipb_ExecutionSummary \<Rightarrow> ExecutionSummary" where
  "verbatim e =
     \<lparr>time_processed_ns = pb_time_processed_ns e, num_produced_rows = pb_num_produced_rows e,
      num_iterations = pb_num_iterations e, concurrency = pb_concurrency e\<rparr>"

definition zero_map :: "string set \<Rightarrow> (string \<rightharpoonup> ExecutionSummary)" where
  "zero_map K = (\<lambda>k. if k \<in> K then Some ExecutionSummary_default else None)"

text \<open>
  The slot and profile that a result is routed to exist in all three vectors: then lines 87,
  92 and 161 index inside their vectors.
\<close>

definition index_in_range :: "bool \<Rightarrow> 'col NextResult \<Rightarrow> 'col TiRemoteBlockInputStream \<Rightarrow> bool" where
  "index_in_range is_streaming_reader result s \<longleftrightarrow>
     profile_index is_streaming_reader result < length (execution_summaries_inited s)
     \<and> profile_index is_streaming_reader result < length (execution_summaries s)
     \<and> profile_index is_streaming_reader result < length (connection_profile_infos s)"

section \<open>Concrete readers and payloads\<close>

text \<open>
  A reader that returns the results of a list in order and reports the end of the stream
  from then on, and the results and summaries the examples are built from.
\<close>

definition end_of_stream :: "'col NextResult" where
  "end_of_stream =
     \<lparr>meet_error = False, error_msg = [], eof = True, resp = None, call_index = 0,
      decode_detail = \<lparr>rows = 0, packet_bytes = 0\<rparr>, req_info = [], decoded_blocks = []\<rparr>"

definition transport_failure :: "string \<Rightarrow> 'col NextResult" where
  "transport_failure msg =
     \<lparr>meet_error = True, error_msg = msg, eof = False, resp = None, call_index = 0,
      decode_detail = \<lparr>rows = 0, packet_bytes = 0\<rparr>, req_info = [], decoded_blocks = []\<rparr>"

definition data_result ::
  "nat \<Rightarrow> SelectResponse option \<Rightarrow> u64 \<Rightarrow> u64 \<Rightarrow> 'col Block list \<Rightarrow> 'col NextResult" where
  "data_result idx rsp n_rows n_bytes blocks =
     \<lparr>meet_error = False, error_msg = [], eof = False, resp = rsp, call_index = idx,
      decode_detail = \<lparr>rows = n_rows, packet_bytes = n_bytes\<rparr>, req_info = [],
      decoded_blocks = blocks\<rparr>"

definition reader_script :: "'col NextResult list \<Rightarrow> nat \<Rightarrow> nat \<Rightarrow> 'col NextResult" where
  "reader_script results sid n = (if n < length results then results ! n else end_of_stream)"

definition summary :: "string \<Rightarrow> u64 \<Rightarrow> u64 \<Rightarrow> u64 \<Rightarrow> u64 \<Rightarrow> tipb_ExecutionSummary" where
  "summary k t r i c =
     \<lparr>executor_id = Some k, pb_time_processed_ns = t, pb_num_produced_rows = r,
      pb_num_iterations = i, pb_concurrency = c\<rparr>"

definition report :: "tipb_ExecutionSummary list \<Rightarrow> SelectResponse" where
  "report summaries = \<lparr>resp_error = None, resp_execution_summaries = summaries\<rparr>"

text \<open>
  A streaming stream over two connections whose slot 0 is published with the single operator
  \<open>opA\<close>.
\<close>

definition published_example :: "nat TiRemoteBlockInputStream" where
  "published_example =
     (TiRemoteBlockInputStream_new 2 0)
       \<lparr>execution_summaries :=
          [[''opA'' \<mapsto> \<lparr>time_processed_ns = 100, num_produced_rows = 10,
                         num_iterations = 1, concurrency = 1\<rparr>],
           Map.empty],
        execution_summaries_inited := [True, False]\<rparr>"

text \<open>
  The streaming scenario: connection 0 has reported \<open>opA\<close> with 10 rows and time 100 (that is
  \<open>published_example\<close>) and now reports 25 rows and time 250.
\<close>

definition streaming_example_reader :: "nat \<Rightarrow> nat \<Rightarrow> nat NextResult" where
  "streaming_example_reader =
     reader_script [data_result 0 (Some (report [summary ''opA'' 250 25 2 1])) 3 8 [[1]]]"

text \<open>
  The batch scenario: three contributors, each reporting \<open>opA\<close> once with 5 rows and time 30,
  each with one block of data.
\<close>

definition three_contributors :: "nat \<Rightarrow> nat \<Rightarrow> nat NextResult" where
  "three_contributors =
     reader_script
       [data_result 0 (Some (report [summary ''opA'' 30 5 1 1])) 5 40 [[1]],
        data_result 1 (Some (report [summary ''opA'' 30 5 1 1])) 5 40 [[2]],
        data_result 2 (Some (report [summary ''opA'' 30 5 1 1])) 5 40 [[3]]]"

text \<open>A batch stream over three sources whose slot 0 holds the first contributor's report.\<close>

definition batch_published_example :: "nat TiRemoteBlockInputStream" where
  "batch_published_example =
     (TiRemoteBlockInputStream_new 3 0)
       \<lparr>execution_summaries :=
          [[''opA'' \<mapsto> \<lparr>time_processed_ns = 30, num_produced_rows = 5,
                         num_iterations = 1, concurrency = 1\<rparr>],
           Map.empty, Map.empty],
        execution_summaries_inited := [True, False, False]\<rparr>"

text \<open>
  Batch readers: one that returns two empty payloads and then a result of two rows in two
  blocks; one that returns an empty payload with a summary and ten bytes and then fails; one
  whose zero-row result pushes a block before a result with a row; one whose only result has
  a row and pushes \<^verbatim>\<open>Block{}\<close> first.
\<close>

definition empty_then_data :: "nat \<Rightarrow> nat \<Rightarrow> nat NextResult" where
  "empty_then_data =
     reader_script
       [data_result 0 None 0 0 [], data_result 0 None 0 0 [], data_result 0 None 2 16 [[1], [2]]]"

definition empty_then_failure :: "nat \<Rightarrow> nat \<Rightarrow> nat NextResult" where
  "empty_then_failure =
     reader_script
       [data_result 0 (Some (report [summary ''opA'' 30 5 1 1])) 0 10 [],
        transport_failure ''connection reset'']"

definition block_with_zero_rows :: "nat \<Rightarrow> nat \<Rightarrow> nat NextResult" where
  "block_with_zero_rows =
     reader_script [data_result 0 None 0 0 [[7]], data_result 0 None 1 8 [[1]]]"

definition empty_first_block :: "nat \<Rightarrow> nat \<Rightarrow> nat NextResult" where
  "empty_first_block = reader_script [data_result 0 None 1 8 [[], [1]]]"

text \<open>Two batch reports over the same two operators, listed in different orders.\<close>

definition report_one :: SelectResponse where
  "report_one = report [summary ''opA'' 30 5 1 1, summary ''opB'' 10 1 1 1]"

definition report_two :: SelectResponse where
  "report_two = report [summary ''opB'' 20 2 1 1, summary ''opA'' 40 6 1 2]"

section \<open>One pass of the fetch, and induction over the self-calls\<close>

lemma fetchRemoteResult_step:
  "fetchRemoteResult st rd s =
     (case fetch_step st rd s of Inl y \<Rightarrow> Some y | Inr s3 \<Rightarrow> fetchRemoteResult st rd s3)"
  apply (subst fetchRemoteResult.simps)
  apply (simp add: fetch_step_def Let_def after_nextResult_def response_error_def merge_payload_def
        profile_index_def count_packet_def split: option.splits sum.splits)
  done

lemma fetchRemoteResult_induct_aux:
  assumes "fetchRemoteResult st rd s = Some y"
  shows "(\<forall>s y. fetch_step st rd s = Inl y \<longrightarrow> P s y) \<longrightarrow>
   (\<forall>s s3 y. fetch_step st rd s = Inr s3 \<longrightarrow> fetchRemoteResult st rd s3 = Some y
                 \<longrightarrow> P s3 y \<longrightarrow> P s y) \<longrightarrow>
   fetchRemoteResult st rd s = Some y \<and> P s y"
  using assms
proof (induction st rd s y rule: fetchRemoteResult.raw_induct [rotated, consumes 1])
  case (1 f st rd s y)
  have body: "(case fetch_step st rd s of Inl y \<Rightarrow> Some y | Inr s3 \<Rightarrow> f st rd s3) = Some y"
    apply (rule trans [OF _ 1(2)])
    apply (simp add: fetch_step_def Let_def after_nextResult_def response_error_def merge_payload_def
        profile_index_def count_packet_def split: option.splits sum.splits)
    done
  show ?case
  proof (intro impI)
    assume ret: "\<forall>s y. fetch_step st rd s = Inl y \<longrightarrow> P s y"
      and call: "\<forall>s s3 y. fetch_step st rd s = Inr s3 \<longrightarrow> fetchRemoteResult st rd s3 = Some y
                 \<longrightarrow> P s3 y \<longrightarrow> P s y"
    show "fetchRemoteResult st rd s = Some y \<and> P s y"
    proof (cases "fetch_step st rd s")
      case (Inl y')
      with body have "y' = y" by simp
      with Inl have st: "fetch_step st rd s = Inl y" by simp
      with ret have "P s y" by blast
      with st show ?thesis by (simp add: fetchRemoteResult_step [of st rd s])
    next
      case (Inr s3)
      with body have "f st rd s3 = Some y" by simp
      from 1(1) [OF this] ret call have "fetchRemoteResult st rd s3 = Some y \<and> P s3 y" by blast
      then have "P s y" using Inr call by blast
      with Inr \<open>fetchRemoteResult st rd s3 = Some y \<and> P s3 y\<close> show ?thesis
        by (simp add: fetchRemoteResult_step [of st rd s])
    qed
  qed
qed

lemma fetchRemoteResult_induct [consumes 1, case_names return call]:
  assumes "fetchRemoteResult st rd s = Some y"
    and "\<And>s y. fetch_step st rd s = Inl y \<Longrightarrow> P s y"
    and "\<And>s s3 y. fetch_step st rd s = Inr s3 \<Longrightarrow> fetchRemoteResult st rd s3 = Some y
                 \<Longrightarrow> P s3 y \<Longrightarrow> P s y"
  shows "P s y"
  using fetchRemoteResult_induct_aux [OF assms(1), of P] assms(2,3) by blast

lemma addRemote_frame:
  "addRemoteExecutionSummaries rsp index st s = Inr s' \<Longrightarrow>
     s' = s\<lparr>execution_summaries := execution_summaries s',
            execution_summaries_inited := execution_summaries_inited s',
            logged := logged s'\<rparr>"
  by (auto simp: addRemoteExecutionSummaries_def initRemoteExecutionSummaries_def
      split: if_splits prod.splits)

lemma dom_merge_loop: "dom (fst (merge_loop st es m lg)) = dom m"
  by (induction es arbitrary: m lg) (auto split: option.splits)

lemma addRemote_published:
  assumes "index < length (execution_summaries_inited s)" and "execution_summaries_inited s ! index"
    and "index < length (execution_summaries s)"
  shows "addRemoteExecutionSummaries rsp index st s =
     Inr (s\<lparr>execution_summaries :=
              (execution_summaries s)
                [index := fst (merge_loop st (resp_execution_summaries rsp)
                                 (execution_summaries s ! index) (logged s))],
            logged := snd (merge_loop st (resp_execution_summaries rsp)
                             (execution_summaries s ! index) (logged s))\<rparr>)"
  using assms by (simp add: addRemoteExecutionSummaries_def split: prod.splits)

lemma addRemote_other_slot:
  assumes "addRemoteExecutionSummaries rsp index st s = Inr s'" and "i \<noteq> index"
  shows "execution_summaries s' ! i = execution_summaries s ! i"
    and "execution_summaries_inited s' ! i = execution_summaries_inited s ! i"
  using assms
  by (auto simp: addRemoteExecutionSummaries_def initRemoteExecutionSummaries_def
      split: if_splits prod.splits)

lemma addRemote_lengths:
  assumes "addRemoteExecutionSummaries rsp index st s = Inr s'"
  shows "length (execution_summaries s') = length (execution_summaries s)"
    and "length (execution_summaries_inited s') = length (execution_summaries_inited s)"
  using assms
  by (auto simp: addRemoteExecutionSummaries_def initRemoteExecutionSummaries_def
      split: if_splits prod.splits)

lemma addRemote_same_slot:
  assumes "addRemoteExecutionSummaries rsp index st s = Inr s'"
    and "index < length (execution_summaries_inited s)" and "execution_summaries_inited s ! index"
  shows "execution_summaries_inited s' ! index"
    and "dom (execution_summaries s' ! index) = dom (execution_summaries s ! index)"
proof -
  have "execution_summaries_inited s' ! index
      \<and> dom (execution_summaries s' ! index) = dom (execution_summaries s ! index)"
  proof (cases "resp_execution_summaries rsp = []")
    case True
    with assms(1) have "s' = s" by (simp add: addRemoteExecutionSummaries_def)
    with assms(3) show ?thesis by simp
  next
    case False
    with assms have len: "index < length (execution_summaries s)"
      by (auto simp: addRemoteExecutionSummaries_def split: if_splits)
    from assms(1) have "s' = s\<lparr>execution_summaries :=
              (execution_summaries s)
                [index := fst (merge_loop st (resp_execution_summaries rsp)
                                 (execution_summaries s ! index) (logged s))],
            logged := snd (merge_loop st (resp_execution_summaries rsp)
                             (execution_summaries s ! index) (logged s))\<rparr>"
      by (simp add: addRemote_published [OF assms(2,3) len])
    then show ?thesis using assms(3) len by (simp add: dom_merge_loop)
  qed
  then show "execution_summaries_inited s' ! index"
    and "dom (execution_summaries s' ! index) = dom (execution_summaries s ! index)"
    by simp_all
qed

lemma addRemote_frozen:
  assumes "addRemoteExecutionSummaries rsp index st s = Inr s'"
  shows "published_frozen s s'"
  unfolding published_frozen_def
proof (intro conjI allI impI)
  show "length (execution_summaries_inited s') = length (execution_summaries_inited s)"
    using assms by (rule addRemote_lengths)
next
  fix i
  assume i: "i < length (execution_summaries_inited s)" and p: "execution_summaries_inited s ! i"
  show "execution_summaries_inited s' ! i"
    using addRemote_other_slot(2) [OF assms, of i] addRemote_same_slot(1) [OF assms] i p
    by (cases "i = index") auto
  show "dom (execution_summaries s' ! i) = dom (execution_summaries s ! i)"
    using addRemote_other_slot(1) [OF assms, of i] addRemote_same_slot(2) [OF assms] i p
    by (cases "i = index") auto
qed

lemma published_frozen_refl: "published_frozen s s"
  by (simp add: published_frozen_def)

lemma published_frozen_trans:
  "published_frozen s s' \<Longrightarrow> published_frozen s' s'' \<Longrightarrow> published_frozen s s''"
  by (auto simp: published_frozen_def)

lemma published_frozen_cong:
  "execution_summaries t = execution_summaries s' \<Longrightarrow>
   execution_summaries_inited t = execution_summaries_inited s' \<Longrightarrow>
   published_frozen s s' \<Longrightarrow> published_frozen s t"
  by (simp add: published_frozen_def)

lemma merge_payload_frozen:
  "merge_payload st r s1 = Inr s2 \<Longrightarrow> published_frozen s1 s2"
  by (auto simp: merge_payload_def published_frozen_refl addRemote_frozen split: option.splits if_splits)

lemma merge_payload_frame:
  "merge_payload st r s1 = Inr s2 \<Longrightarrow>
     s2 = s1\<lparr>execution_summaries := execution_summaries s2,
             execution_summaries_inited := execution_summaries_inited s2,
             logged := logged s2\<rparr>"
  by (auto simp: merge_payload_def split: option.splits if_splits dest: addRemote_frame)

lemma frozen_after_nextResult: "published_frozen s (after_nextResult r s)"
  by (simp add: published_frozen_def after_nextResult_def)

lemma frozen_logged: "published_frozen s s' \<Longrightarrow> published_frozen s (s'\<lparr>logged := l\<rparr>)"
  by (simp add: published_frozen_def)

lemma frozen_count_packet:
  "published_frozen s s2 \<Longrightarrow> published_frozen s (count_packet st r s2)"
  by (simp add: published_frozen_def count_packet_def Let_def)

lemma frozen_merge_payload:
  "merge_payload st r (after_nextResult r' s) = Inr s2 \<Longrightarrow> published_frozen s s2"
  by (blast intro: published_frozen_trans frozen_after_nextResult merge_payload_frozen)

lemma fetch_step_frozen:
  "fetch_step st rd s = Inl (out, s') \<Longrightarrow> published_frozen s s'"
  "fetch_step st rd s = Inr s3 \<Longrightarrow> published_frozen s s3"
  by (auto simp: fetch_step_def Let_def split: if_splits option.splits sum.splits
      intro!: frozen_logged frozen_count_packet frozen_after_nextResult intro: frozen_merge_payload)

lemma fetchRemoteResult_frozen:
  assumes "fetchRemoteResult st rd s = Some y"
  shows "published_frozen s (snd y)"
  using assms
proof (induction rule: fetchRemoteResult_induct)
  case (return s y)
  then show ?case by (cases y) (simp add: fetch_step_frozen)
next
  case (call s s3 y)
  then show ?case by (blast intro: published_frozen_trans fetch_step_frozen)
qed

lemma frozen_pop_front:
  "published_frozen s s1 \<Longrightarrow> pop_front s1 = (out, s') \<Longrightarrow> published_frozen s s'"
  by (cases "block_queue s1") (simp_all add: pop_front_def published_frozen_def, fastforce)

lemma readImpl_frozen:
  assumes "readImpl st rd s = Some (out, s')"
  shows "published_frozen s s'"
proof (cases "block_queue s = []")
  case False
  with assms show ?thesis
    by (auto simp: readImpl_def intro: frozen_pop_front [OF published_frozen_refl])
next
  case True
  with assms obtain y where y: "fetchRemoteResult st rd s = Some y"
    by (auto simp: readImpl_def split: option.splits)
  then have "published_frozen s (snd y)" by (rule fetchRemoteResult_frozen)
  with assms True y show ?thesis
    by (cases y) (auto simp: readImpl_def split: sum.splits if_splits intro: frozen_pop_front)
qed

section \<open>What one pass changes\<close>

lemma addRemote_fields:
  assumes "addRemoteExecutionSummaries rsp index st s = Inr s'"
  shows "reader_pos s' = reader_pos s" and "stream_id s' = stream_id s"
    and "block_queue s' = block_queue s"
    and "connection_profile_infos s' = connection_profile_infos s"
    and "total_rows s' = total_rows s"
  using assms
  by (auto simp: addRemoteExecutionSummaries_def initRemoteExecutionSummaries_def
      split: if_splits prod.splits)

lemma addRemote_error:
  "addRemoteExecutionSummaries rsp index st s = Inl e \<Longrightarrow> e = UndefinedBehaviour"
  by (auto simp: addRemoteExecutionSummaries_def initRemoteExecutionSummaries_def
      split: if_splits prod.splits)

lemma merge_payload_fields:
  assumes "merge_payload st r s1 = Inr s2"
  shows "reader_pos s2 = reader_pos s1 \<and> stream_id s2 = stream_id s1
    \<and> block_queue s2 = block_queue s1
    \<and> connection_profile_infos s2 = connection_profile_infos s1
    \<and> total_rows s2 = total_rows s1"
  using assms
  by (auto simp: merge_payload_def split: option.splits if_splits dest: addRemote_fields)

lemma merge_payload_error:
  "merge_payload st r s1 = Inl e \<Longrightarrow> e = UndefinedBehaviour"
  by (auto simp: merge_payload_def split: option.splits if_splits dest: addRemote_error)

lemma fetch_step_Inr:
  assumes "fetch_step st rd s = Inr s3" and "r = rd (stream_id s) (reader_pos s)"
  shows "empty_payload r" and "reader_pos s3 = Suc (reader_pos s)" and "stream_id s3 = stream_id s"
    and "block_queue s3 = block_queue s @ decoded_blocks r"
    and "total_rows s3 = total_rows s + counted_rows r"
  using assms
  by (auto simp: fetch_step_def Let_def empty_payload_def counted_rows_def count_packet_def
      after_nextResult_def split: if_splits option.splits sum.splits dest!: merge_payload_fields)

lemma fetch_step_Inl:
  assumes "fetch_step st rd s = Inl (out, s')" and "r = rd (stream_id s) (reader_pos s)"
  shows "reader_pos s' = Suc (reader_pos s)" and "stream_id s' = stream_id s"
    and "block_queue s' = block_queue s @ decoded_blocks r"
    and "out = Inl UndefinedBehaviour \<or> (\<not> empty_payload r \<and> out = expected_outcome r)"
    and "out \<noteq> Inl UndefinedBehaviour \<Longrightarrow> total_rows s' = total_rows s + counted_rows r"
  using assms
  by (auto simp: fetch_step_def Let_def empty_payload_def counted_rows_def count_packet_def
      expected_outcome_def after_nextResult_def split: if_splits option.splits sum.splits
      dest!: merge_payload_fields merge_payload_error)

lemma fetch_step_batch_profile:
  assumes "fetch_step False rd s = Inl (out, s') \<or> fetch_step False rd s = Inr s'"
  shows "length (connection_profile_infos s') = length (connection_profile_infos s)"
    and "0 < i \<Longrightarrow> connection_profile_infos s' ! i = connection_profile_infos s ! i"
  using assms
  by (auto simp: fetch_step_def Let_def count_packet_def profile_index_def
      after_nextResult_def split: if_splits option.splits sum.splits
      dest!: merge_payload_fields)

section \<open>Runs of empty payloads\<close>



section \<open>Indices in range\<close>

lemma addRemote_in_range:
  assumes "index < length (execution_summaries_inited s)" and "index < length (execution_summaries s)"
  shows "\<exists>s'. addRemoteExecutionSummaries rsp index st s = Inr s'"
  using assms
  by (simp add: addRemoteExecutionSummaries_def initRemoteExecutionSummaries_def split: prod.splits)

lemma merge_payload_in_range:
  assumes "index_in_range st r s1"
  shows "\<exists>s2. merge_payload st r s1 = Inr s2"
  using assms addRemote_in_range [of "profile_index st r" s1]
  by (cases st) (auto simp: merge_payload_def index_in_range_def profile_index_def split: option.splits)

lemma index_in_range_cong:
  assumes "length (execution_summaries_inited s') = length (execution_summaries_inited s)"
    and "length (execution_summaries s') = length (execution_summaries s)"
    and "length (connection_profile_infos s') = length (connection_profile_infos s)"
  shows "index_in_range st r s' = index_in_range st r s"
  using assms by (simp add: index_in_range_def)

lemma merge_payload_lengths:
  assumes "merge_payload st r s1 = Inr s2"
  shows "length (execution_summaries_inited s2) = length (execution_summaries_inited s1)
    \<and> length (execution_summaries s2) = length (execution_summaries s1)
    \<and> length (connection_profile_infos s2) = length (connection_profile_infos s1)"
  using assms
  by (auto simp: merge_payload_def split: option.splits if_splits
      dest: addRemote_lengths addRemote_fields)

lemma fetch_step_lengths:
  assumes "fetch_step st rd s = Inr s3"
  shows "length (execution_summaries_inited s3) = length (execution_summaries_inited s)
    \<and> length (execution_summaries s3) = length (execution_summaries s)
    \<and> length (connection_profile_infos s3) = length (connection_profile_infos s)"
  using assms
  by (auto simp: fetch_step_def Let_def count_packet_def after_nextResult_def
      split: if_splits option.splits sum.splits dest!: merge_payload_lengths)

lemma fetch_step_in_range:
  assumes "index_in_range st (rd (stream_id s) (reader_pos s)) s"
    and "fetch_step st rd s = Inl (out, s')"
  shows "out \<noteq> Inl UndefinedBehaviour"
proof -
  let ?r = "rd (stream_id s) (reader_pos s)"
  have r: "index_in_range st ?r (after_nextResult ?r s)"
    using assms(1) by (simp add: index_in_range_def after_nextResult_def)
  from merge_payload_in_range [OF r] obtain s2 where
    m: "merge_payload st ?r (after_nextResult ?r s) = Inr s2" ..
  from merge_payload_lengths [OF m] r
  have "profile_index st ?r < length (connection_profile_infos s2)"
    by (simp add: index_in_range_def)
  with assms(2) m show ?thesis
    by (auto simp: fetch_step_def Let_def split: if_splits option.splits)
qed


section \<open>The members when a later pass starts\<close>

lemma after_self_calls_Some:
  assumes "after_self_calls k st rd s = Some sk"
  shows "fetchRemoteResult st rd s = fetchRemoteResult st rd sk
    \<and> reader_pos sk = reader_pos s + k \<and> stream_id sk = stream_id s
    \<and> total_rows sk = total_rows s
    \<and> block_queue sk = block_queue s @
         concat (map (\<lambda>j. decoded_blocks (rd (stream_id s) (reader_pos s + j))) [0..<k])"
  using assms
proof (induction k arbitrary: s)
  case 0
  then show ?case by simp
next
  case (Suc k)
  from Suc.prems obtain s3 where step: "fetch_step st rd s = Inr s3"
    and rest: "after_self_calls k st rd s3 = Some sk"
    by (auto split: sum.splits)
  note f = fetch_step_Inr [OF step refl]
  from f(1,5) have t: "total_rows s3 = total_rows s"
    by (simp add: counted_rows_def empty_payload_def)
  have r: "fetchRemoteResult st rd s = fetchRemoteResult st rd s3"
    by (subst fetchRemoteResult_step) (simp add: step)
  have c: "concat (map (\<lambda>j. decoded_blocks (rd (stream_id s) (reader_pos s + j))) [0..<Suc k])
      = decoded_blocks (rd (stream_id s) (reader_pos s))
        @ concat (map (\<lambda>j. decoded_blocks (rd (stream_id s) (Suc (reader_pos s) + j))) [0..<k])"
    by (subst map_upt_Suc) simp
  from Suc.IH [OF rest] r t f(2,3,4) c show ?case by simp
qed

lemma after_self_calls_None:
  assumes "\<forall>j<k. empty_payload (rd (stream_id s) (reader_pos s + j))"
    and "after_self_calls k st rd s = None"
  shows "\<exists>s'. fetchRemoteResult st rd s = Some (Inl UndefinedBehaviour, s')"
  using assms
proof (induction k arbitrary: s)
  case 0
  then show ?case by simp
next
  case (Suc k)
  let ?r = "rd (stream_id s) (reader_pos s)"
  from Suc.prems(1) have e: "empty_payload ?r" by (metis add.right_neutral zero_less_Suc)
  show ?case
  proof (cases "fetch_step st rd s")
    case (Inl y)
    obtain out s' where y: "y = (out, s')" by (cases y)
    note f = fetch_step_Inl [OF Inl [unfolded y] refl]
    from f(4) e have ub: "out = Inl UndefinedBehaviour" by simp
    have "fetchRemoteResult st rd s = Some (out, s')"
      by (subst fetchRemoteResult_step) (simp add: Inl y)
    with ub show ?thesis by simp
  next
    case (Inr s3)
    note f = fetch_step_Inr [OF Inr refl]
    have p1: "\<forall>j<k. empty_payload (rd (stream_id s3) (reader_pos s3 + j))"
      using Suc.prems(1) f(2,3) by (metis Suc_less_eq add_Suc_shift)
    have p2: "after_self_calls k st rd s3 = None"
      using Suc.prems(2) Inr by simp
    have "fetchRemoteResult st rd s = fetchRemoteResult st rd s3"
      by (subst fetchRemoteResult_step) (simp add: Inr)
    with Suc.IH [OF p1 p2] show ?thesis by simp
  qed
qed

lemma after_self_calls_in_range:
  assumes "\<forall>j<k. empty_payload (rd (stream_id s) (reader_pos s + j))"
    and "\<forall>j<k. index_in_range st (rd (stream_id s) (reader_pos s + j)) s"
  shows "\<exists>sk. after_self_calls k st rd s = Some sk"
  using assms
proof (induction k arbitrary: s)
  case 0
  then show ?case by simp
next
  case (Suc k)
  let ?r = "rd (stream_id s) (reader_pos s)"
  from Suc.prems(1) have e: "empty_payload ?r" by (metis add.right_neutral zero_less_Suc)
  from Suc.prems(2) have r: "index_in_range st ?r s" by (metis add.right_neutral zero_less_Suc)
  show ?case
  proof (cases "fetch_step st rd s")
    case (Inl y)
    obtain out s' where y: "y = (out, s')" by (cases y)
    note f = fetch_step_Inl [OF Inl [unfolded y] refl]
    from f(4) e have "out = Inl UndefinedBehaviour" by simp
    with fetch_step_in_range [OF r Inl [unfolded y]] show ?thesis by simp
  next
    case (Inr s3)
    note f = fetch_step_Inr [OF Inr refl]
    note l = fetch_step_lengths [OF Inr]
    have p1: "\<forall>j<k. empty_payload (rd (stream_id s3) (reader_pos s3 + j))"
      using Suc.prems(1) f(2,3) by (metis Suc_less_eq add_Suc_shift)
    have p2: "\<forall>j<k. index_in_range st (rd (stream_id s3) (reader_pos s3 + j)) s3"
    proof (intro allI impI)
      fix j assume "j < k"
      with Suc.prems(2) have "index_in_range st (rd (stream_id s) (reader_pos s + Suc j)) s"
        by (metis Suc_less_eq)
      then show "index_in_range st (rd (stream_id s3) (reader_pos s3 + j)) s3"
        using f(2,3) l by (simp add: index_in_range_def)
    qed
    from Suc.IH [OF p1 p2] Inr show ?thesis by simp
  qed
qed

section \<open>The running total of rows\<close>

lemma sum_upt_split:
  fixes f :: "nat \<Rightarrow> 'a::comm_monoid_add"
  assumes "a \<le> b" and "b \<le> c"
  shows "sum_list (map f [a..<b]) + sum_list (map f [b..<c]) = sum_list (map f [a..<c])"
proof -
  from assms(2) obtain d where "c = b + d" by (auto simp: le_iff_add)
  with assms(1) show ?thesis by (simp add: upt_add_eq_append [of a b d])
qed

lemma fetchRemoteResult_total_rows:
  assumes "fetchRemoteResult st rd s = Some (out, s')" and "out \<noteq> Inl UndefinedBehaviour"
  shows "reader_pos s < reader_pos s' \<and> stream_id s' = stream_id s
    \<and> total_rows s' = total_rows s
         + sum_list (map (\<lambda>i. counted_rows (rd (stream_id s) i)) [reader_pos s..<reader_pos s'])"
proof -
  have "fst y \<noteq> Inl UndefinedBehaviour \<longrightarrow>
      reader_pos s < reader_pos (snd y) \<and> stream_id (snd y) = stream_id s
      \<and> total_rows (snd y) = total_rows s
         + sum_list (map (\<lambda>i. counted_rows (rd (stream_id s) i)) [reader_pos s..<reader_pos (snd y)])"
    if "fetchRemoteResult st rd s = Some y" for y
    using that
  proof (induction rule: fetchRemoteResult_induct)
    case (return s y)
    obtain out s' where y: "y = (out, s')" by (cases y)
    note f = fetch_step_Inl [OF return [unfolded y] refl]
    show ?case using f(1,2,5) by (simp add: y)
  next
    case (call s s3 y)
    note f = fetch_step_Inr [OF call(1) refl]
    show ?case
    proof
      assume "fst y \<noteq> Inl UndefinedBehaviour"
      with call.IH have ih: "reader_pos s3 < reader_pos (snd y)" "stream_id (snd y) = stream_id s3"
        "total_rows (snd y) = total_rows s3
           + sum_list (map (\<lambda>i. counted_rows (rd (stream_id s3) i)) [reader_pos s3..<reader_pos (snd y)])"
        by simp_all
      have lt: "reader_pos s < reader_pos (snd y)" using ih(1) f(2) by simp
      have "[reader_pos s..<reader_pos (snd y)] = reader_pos s # [reader_pos s3..<reader_pos (snd y)]"
        using lt f(2) by (simp add: upt_conv_Cons)
      then show "reader_pos s < reader_pos (snd y) \<and> stream_id (snd y) = stream_id s
        \<and> total_rows (snd y) = total_rows s
           + sum_list (map (\<lambda>i. counted_rows (rd (stream_id s) i)) [reader_pos s..<reader_pos (snd y)])"
        using lt ih f(3,5) by (simp add: add.assoc)
    qed
  qed
  from this [OF assms(1)] assms(2) show ?thesis by simp
qed

lemma pop_front_fields:
  assumes "pop_front s = (out, s')"
  shows "reader_pos s' = reader_pos s \<and> stream_id s' = stream_id s \<and> total_rows s' = total_rows s
    \<and> connection_profile_infos s' = connection_profile_infos s"
  using assms by (auto simp: pop_front_def split: list.splits)

lemma readImpl_total_rows:
  assumes "readImpl st rd s = Some (out, s')" and "out \<noteq> Inl UndefinedBehaviour"
  shows "reader_pos s \<le> reader_pos s' \<and> stream_id s' = stream_id s
    \<and> total_rows s' = total_rows s
         + sum_list (map (\<lambda>i. counted_rows (rd (stream_id s) i)) [reader_pos s..<reader_pos s'])"
proof (cases "block_queue s = []")
  case False
  with assms(1) have "pop_front s = (out, s')" by (simp add: readImpl_def)
  from pop_front_fields [OF this] show ?thesis by simp
next
  case True
  with assms(1) obtain fetched s1 where f: "fetchRemoteResult st rd s = Some (fetched, s1)"
    by (auto simp: readImpl_def split: option.splits)
  have nub: "fetched \<noteq> Inl UndefinedBehaviour"
    using assms True f by (auto simp: readImpl_def)
  note t = fetchRemoteResult_total_rows [OF f nub]
  show ?thesis
  proof (cases "fetched = Inr True")
    case True
    with assms(1) \<open>block_queue s = []\<close> f have "pop_front s1 = (out, s')" by (simp add: readImpl_def)
    from pop_front_fields [OF this] t show ?thesis by simp
  next
    case False
    with assms(1) \<open>block_queue s = []\<close> f have "s' = s1"
      by (cases fetched) (auto simp: readImpl_def)
    with t show ?thesis by simp
  qed
qed

lemma read_loop_total_rows:
  assumes "read_loop n st rd s = Some (e, s')" and "e \<noteq> Some UndefinedBehaviour"
  shows "reader_pos s \<le> reader_pos s' \<and> stream_id s' = stream_id s
    \<and> total_rows s' = total_rows s
         + sum_list (map (\<lambda>i. counted_rows (rd (stream_id s) i)) [reader_pos s..<reader_pos s'])"
  using assms
proof (induction n arbitrary: s)
  case 0
  then show ?case by simp
next
  case (Suc n)
  from Suc.prems(1) obtain out s1 where r: "readImpl st rd s = Some (out, s1)"
    by (auto split: option.splits)
  show ?case
  proof (cases out)
    case (Inl err)
    with Suc.prems r have "s' = s1" "out \<noteq> Inl UndefinedBehaviour" by auto
    with readImpl_total_rows [OF r] show ?thesis by simp
  next
    case (Inr block)
    then have nub: "out \<noteq> Inl UndefinedBehaviour" by simp
    note t = readImpl_total_rows [OF r nub]
    show ?thesis
    proof (cases "block = []")
      case True
      with Suc.prems r Inr have "s' = s1" by simp
      with t show ?thesis by simp
    next
      case False
      with Suc.prems r Inr have "read_loop n st rd s1 = Some (e, s')" by simp
      from Suc.IH [OF this Suc.prems(2)] t
      show ?thesis
        using sum_upt_split [of "reader_pos s" "reader_pos s1" "reader_pos s'"
            "\<lambda>i. counted_rows (rd (stream_id s) i)"]
        by (simp add: add.assoc)
    qed
  qed
qed

lemma unat_sum_list:
  fixes xs :: "u64 list"
  shows "unat (sum_list xs) = sum_list (map unat xs) mod 2 ^ 64"
  by (induction xs) (simp_all add: unat_word_ariths mod_add_right_eq)

section \<open>The connection profiles of a batch reader\<close>

lemma fetchRemoteResult_batch_profile:
  assumes "fetchRemoteResult False rd s = Some y"
  shows "length (connection_profile_infos (snd y)) = length (connection_profile_infos s)
    \<and> (\<forall>i. 0 < i \<longrightarrow> connection_profile_infos (snd y) ! i = connection_profile_infos s ! i)"
  using assms
proof (induction rule: fetchRemoteResult_induct)
  case (return s y)
  obtain out s' where y: "y = (out, s')" by (cases y)
  from return show ?case
    using fetch_step_batch_profile [of rd s out s'] by (simp add: y)
next
  case (call s s3 y)
  then show ?case
    using fetch_step_batch_profile [of rd s _ s3] by simp
qed

lemma readImpl_batch_profile:
  assumes "readImpl False rd s = Some (out, s')"
  shows "length (connection_profile_infos s') = length (connection_profile_infos s)
    \<and> (\<forall>i. 0 < i \<longrightarrow> connection_profile_infos s' ! i = connection_profile_infos s ! i)"
proof (cases "block_queue s = []")
  case False
  with assms have "pop_front s = (out, s')" by (simp add: readImpl_def)
  from pop_front_fields [OF this] show ?thesis by simp
next
  case True
  with assms obtain fetched s1 where f: "fetchRemoteResult False rd s = Some (fetched, s1)"
    by (auto simp: readImpl_def split: option.splits)
  note t = fetchRemoteResult_batch_profile [OF f]
  show ?thesis
  proof (cases "fetched = Inr True")
    case True
    with assms \<open>block_queue s = []\<close> f have "pop_front s1 = (out, s')" by (simp add: readImpl_def)
    from pop_front_fields [OF this] t show ?thesis by simp
  next
    case False
    with assms \<open>block_queue s = []\<close> f have "s' = s1"
      by (cases fetched) (auto simp: readImpl_def)
    with t show ?thesis by simp
  qed
qed

lemma read_loop_batch_profile:
  assumes "read_loop n False rd s = Some (e, s')"
  shows "length (connection_profile_infos s') = length (connection_profile_infos s)
    \<and> (\<forall>i. 0 < i \<longrightarrow> connection_profile_infos s' ! i = connection_profile_infos s ! i)"
  using assms
proof (induction n arbitrary: s)
  case 0
  then show ?case by simp
next
  case (Suc n)
  from Suc.prems obtain out s1 where r: "readImpl False rd s = Some (out, s1)"
    by (auto split: option.splits)
  note t = readImpl_batch_profile [OF r]
  show ?case
  proof (cases "\<exists>block. out = Inr block \<and> block \<noteq> []")
    case True
    with Suc.prems r have "read_loop n False rd s1 = Some (e, s')" by auto
    from Suc.IH [OF this] t show ?thesis by simp
  next
    case False
    with Suc.prems r have "s' = s1" by (cases out) (auto split: if_splits)
    with t show ?thesis by simp
  qed
qed

section \<open>What a merge into a published slot computes\<close>

lemma merge_loop_lookup:
  "fst (merge_loop st es m lg) k =
     map_option (\<lambda>v. foldl (merge_entry st) v (entries_for k es)) (m k)"
proof (induction es arbitrary: m lg)
  case Nil
  show ?case by (simp add: entries_for_def option.map_ident)
next
  case (Cons e es)
  show ?case
  proof (cases "executor_id e")
    case None
    then show ?thesis by (simp add: Cons.IH) (simp add: entries_for_def)
  next
    case (Some k')
    show ?thesis
    proof (cases "m k'")
      case None
      with Some show ?thesis
        by (cases "k' = k") (simp_all add: Cons.IH, simp_all add: entries_for_def)
    next
      case (Some cur)
      with \<open>executor_id e = Some k'\<close> show ?thesis
        by (cases "k' = k") (simp_all add: Cons.IH, simp_all add: entries_for_def)
    qed
  qed
qed

lemma merge_loop_warnings:
  "snd (merge_loop st es m lg) =
     lg @ map Warning_not_found (filter (\<lambda>k. m k = None) (List.map_filter executor_id es))"
proof (induction es arbitrary: m lg)
  case Nil
  show ?case by simp
next
  case (Cons e es)
  show ?case
  proof (cases "executor_id e")
    case None
    then show ?thesis by (simp add: Cons.IH)
  next
    case (Some k')
    show ?thesis
    proof (cases "m k'")
      case None
      with Some show ?thesis by (simp add: Cons.IH)
    next
      case (Some cur)
      have "\<And>k. ((m(k' \<mapsto> merge_entry st cur e)) k = None) = (m k = None)"
        using Some by auto
      with Some \<open>executor_id e = Some k'\<close> show ?thesis
        by (simp add: Cons.IH del: fun_upd_apply)
    qed
  qed
qed

lemma merge_loop_skip_unknown:
  "dom m = D \<Longrightarrow>
   fst (merge_loop st (filter (\<lambda>e. \<forall>k. executor_id e = Some k \<longrightarrow> k \<in> D) es) m lg')
     = fst (merge_loop st es m lg)"
proof (induction es arbitrary: m lg lg')
  case Nil
  show ?case by simp
next
  case (Cons e es)
  show ?case
  proof (cases "executor_id e")
    case None
    then show ?thesis using Cons.IH [OF Cons.prems, of lg' lg] by simp
  next
    case (Some k')
    show ?thesis
    proof (cases "m k'")
      case None
      then have "k' \<notin> D" using Cons.prems by auto
      with None Some show ?thesis
        using Cons.IH [OF Cons.prems, of lg' "lg @ [Warning_not_found k']"] by simp
    next
      case (Some cur)
      then have "k' \<in> D" using Cons.prems by auto
      moreover have "dom (m(k' \<mapsto> merge_entry st cur e)) = D"
        using Some Cons.prems by auto
      note Cons.IH [OF this, of lg' lg]
      ultimately show ?thesis
        using Some \<open>executor_id e = Some k'\<close> by (simp del: fun_upd_apply)
    qed
  qed
qed

lemma foldl_merge_entry_time:
  "time_processed_ns (foldl (merge_entry st) v xs) =
     foldl max (time_processed_ns v) (map pb_time_processed_ns xs)"
  by (induction xs arbitrary: v) (simp_all add: merge_entry_def)

lemma foldl_merge_entry_streaming:
  "num_produced_rows (foldl (merge_entry True) v xs) =
     foldl max (num_produced_rows v) (map pb_num_produced_rows xs)"
  "num_iterations (foldl (merge_entry True) v xs) =
     foldl max (num_iterations v) (map pb_num_iterations xs)"
  "concurrency (foldl (merge_entry True) v xs) =
     foldl max (concurrency v) (map pb_concurrency xs)"
  by (induction xs arbitrary: v) (simp_all add: merge_entry_def)

lemma foldl_merge_entry_batch:
  "num_produced_rows (foldl (merge_entry False) v xs) =
     num_produced_rows v + sum_list (map pb_num_produced_rows xs)"
  "num_iterations (foldl (merge_entry False) v xs) =
     num_iterations v + sum_list (map pb_num_iterations xs)"
  "concurrency (foldl (merge_entry False) v xs) =
     concurrency v + sum_list (map pb_concurrency xs)"
  by (induction xs arbitrary: v) (simp_all add: merge_entry_def add.assoc)

lemma fetch_data_published:
  assumes "r = rd (stream_id s) (reader_pos s)"
    and "\<not> meet_error r" and "\<not> eof r" and "resp r = Some rsp" and "resp_error rsp = None"
    and "idx = profile_index st r"
    and "idx < length (execution_summaries_inited s)" and "execution_summaries_inited s ! idx"
    and "idx < length (execution_summaries s)" and "idx < length (connection_profile_infos s)"
    and "s1 = after_nextResult r s"
    and "s2 = s1\<lparr>execution_summaries :=
                    (execution_summaries s)
                      [idx := fst (merge_loop st (resp_execution_summaries rsp)
                                     (execution_summaries s ! idx) (logged s))],
                  logged := snd (merge_loop st (resp_execution_summaries rsp)
                                   (execution_summaries s ! idx) (logged s))\<rparr>"
    and "s3 = count_packet st r s2"
  shows "fetchRemoteResult st rd s =
           (if rows (decode_detail r) = 0 then fetchRemoteResult st rd s3 else Some (Inr True, s3))"
proof -
  have "merge_payload st r s1 = Inr s2"
    using assms
    by (cases st) (simp_all add: merge_payload_def profile_index_def after_nextResult_def addRemote_published)
  moreover have "response_error r = None" using assms by (simp add: response_error_def)
  moreover have "profile_index st r < length (connection_profile_infos s2)"
    using assms by (simp add: after_nextResult_def)
  ultimately show ?thesis
    using assms(1,2,3,11,13)
    by (subst fetchRemoteResult_step) (simp add: fetch_step_def Let_def)
qed

lemma fetch_data_routed:
  assumes "r = rd (stream_id s) (reader_pos s)"
    and "\<not> meet_error r" and "\<not> eof r" and "resp r = Some rsp" and "resp_error rsp = None"
    and "idx = profile_index st r"
    and "idx < length (execution_summaries_inited s)"
    and "idx < length (execution_summaries s)" and "idx < length (connection_profile_infos s)"
  shows "\<exists>s2. addRemoteExecutionSummaries rsp idx st (after_nextResult r s) = Inr s2
      \<and> fetchRemoteResult st rd s =
           (if rows (decode_detail r) = 0 then fetchRemoteResult st rd (count_packet st r s2)
            else Some (Inr True, count_packet st r s2))"
proof -
  let ?s1 = "after_nextResult r s"
  have "idx < length (execution_summaries_inited ?s1)" "idx < length (execution_summaries ?s1)"
    using assms(7,8) by (simp_all add: after_nextResult_def)
  from addRemote_in_range [OF this] obtain s2 where
    run: "addRemoteExecutionSummaries rsp idx st ?s1 = Inr s2" ..
  have m: "merge_payload st r ?s1 = Inr s2"
    using run assms(4,6) by (cases st) (simp_all add: merge_payload_def profile_index_def)
  have "response_error r = None" using assms(4,5) by (simp add: response_error_def)
  moreover have "profile_index st r < length (connection_profile_infos s2)"
    using addRemote_fields(4) [OF run] assms(6,9) by (simp add: after_nextResult_def)
  ultimately have "fetchRemoteResult st rd s =
           (if rows (decode_detail r) = 0 then fetchRemoteResult st rd (count_packet st r s2)
            else Some (Inr True, count_packet st r s2))"
    using assms(1,2,3) m
    by (subst fetchRemoteResult_step) (simp add: fetch_step_def Let_def)
  with run show ?thesis by blast
qed

lemma addRemote_publishes:
  assumes "addRemoteExecutionSummaries rsp index st s = Inr s'"
    and "resp_execution_summaries rsp \<noteq> []"
  shows "execution_summaries_inited s' ! index"
  using assms
  by (auto simp: addRemoteExecutionSummaries_def initRemoteExecutionSummaries_def
      split: if_splits prod.splits)

lemmas example_defs =
  end_of_stream_def transport_failure_def data_result_def reader_script_def summary_def report_def
  published_example_def batch_published_example_def streaming_example_reader_def
  three_contributors_def empty_then_data_def empty_then_failure_def
  block_with_zero_rows_def empty_first_block_def
  report_one_def report_two_def TiRemoteBlockInputStream_new_def

lemmas run_defs =
  fetch_step_def after_nextResult_def response_error_def merge_payload_def profile_index_def
  count_packet_def addRemoteExecutionSummaries_def initRemoteExecutionSummaries_def
  subscript_assign_def ExecutionSummary_default_def merge_entry_def readImpl_def pop_front_def Let_def

lemma count_packet_table:
  "execution_summaries (count_packet st r s2) = execution_summaries s2"
  "execution_summaries_inited (count_packet st r s2) = execution_summaries_inited s2"
  "block_queue (count_packet st r s2) = block_queue s2"
  by (simp_all add: count_packet_def Let_def)

lemma foldl_merge_entry_streaming_eq:
  "foldl (merge_entry True) v xs =
     \<lparr>time_processed_ns = foldl max (time_processed_ns v) (map pb_time_processed_ns xs),
      num_produced_rows = foldl max (num_produced_rows v) (map pb_num_produced_rows xs),
      num_iterations = foldl max (num_iterations v) (map pb_num_iterations xs),
      concurrency = foldl max (concurrency v) (map pb_concurrency xs)\<rparr>"
  by (induction xs arbitrary: v) (simp_all add: merge_entry_def)

lemma foldl_merge_entry_batch_eq:
  "foldl (merge_entry False) v xs =
     \<lparr>time_processed_ns = foldl max (time_processed_ns v) (map pb_time_processed_ns xs),
      num_produced_rows = num_produced_rows v + sum_list (map pb_num_produced_rows xs),
      num_iterations = num_iterations v + sum_list (map pb_num_iterations xs),
      concurrency = concurrency v + sum_list (map pb_concurrency xs)\<rparr>"
  by (induction xs arbitrary: v) (simp_all add: merge_entry_def add.assoc)

lemma readImpl_delivers:
  assumes "block_queue s = []"
    and "fetchRemoteResult st rd s = Some (Inr True, s3)" and "block_queue s3 = b # bs"
  shows "readImpl st rd s = Some (Inr b, s3\<lparr>block_queue := bs\<rparr>)"
  using assms by (simp add: readImpl_def pop_front_def)

lemma reported_ids_filter:
  "List.map_filter executor_id (filter (\<lambda>e. \<forall>k. executor_id e = Some k \<longrightarrow> P k) es) =
     filter P (List.map_filter executor_id es)"
  by (induction es) (auto split: option.splits)

section \<open>Batch merges commute\<close>

lemma merge_loop_log_irrelevant:
  "fst (merge_loop st es m lg) = fst (merge_loop st es m lg')"
  by (rule ext) (simp add: merge_loop_lookup)

lemma foldl_max_swap:
  fixes a :: "'a::linorder"
  shows "foldl max (max a b) xs = max (foldl max a xs) b"
proof (induction xs arbitrary: a)
  case Nil
  show ?case by simp
next
  case (Cons x xs)
  have "max (max a b) x = max (max a x) b"
    by (simp add: max.assoc max.commute max.left_commute)
  then show ?case by (simp add: Cons.IH)
qed

lemma foldl_max_commute:
  fixes t :: "'a::linorder"
  shows "foldl max (foldl max t xs) ys = foldl max (foldl max t ys) xs"
proof (induction xs arbitrary: t)
  case Nil
  show ?case by simp
next
  case (Cons x xs)
  show ?case by (simp add: Cons.IH foldl_max_swap)
qed

lemma merge_into_lookup:
  "merge_into rsp m k =
     map_option (\<lambda>v. foldl (merge_entry False) v (entries_for k (resp_execution_summaries rsp))) (m k)"
  by (simp add: merge_into_def merge_loop_lookup)

lemma merge_into_commute: "merge_into a (merge_into b m) = merge_into b (merge_into a m)"
proof (rule ext)
  fix k
  show "merge_into a (merge_into b m) k = merge_into b (merge_into a m) k"
    by (cases "m k")
      (simp_all add: merge_into_lookup foldl_merge_entry_batch_eq foldl_max_commute ac_simps)
qed

lemma dom_merge_into: "dom (merge_into rsp m) = dom m"
  by (simp add: merge_into_def dom_merge_loop)

lemma merge_into_empty: "resp_execution_summaries rsp = [] \<Longrightarrow> merge_into rsp m = m"
  by (simp add: merge_into_def)

lemma update_all_fields:
  "(a :: ExecutionSummary)\<lparr>time_processed_ns := t, num_produced_rows := r, num_iterations := i,
      concurrency := c\<rparr>
     = \<lparr>time_processed_ns = t, num_produced_rows = r, num_iterations = i, concurrency = c\<rparr>"
  by (cases a) simp

lemma subscript_assign_all:
  "subscript_assign (subscript_assign (subscript_assign (subscript_assign m k
       (\<lambda>v. v\<lparr>time_processed_ns := pb_time_processed_ns e\<rparr>)) k
       (\<lambda>v. v\<lparr>num_produced_rows := pb_num_produced_rows e\<rparr>)) k
       (\<lambda>v. v\<lparr>num_iterations := pb_num_iterations e\<rparr>)) k
       (\<lambda>v. v\<lparr>concurrency := pb_concurrency e\<rparr>)
     = m(k \<mapsto> verbatim e)"
  by (cases "m k")
    (simp_all add: subscript_assign_def verbatim_def ExecutionSummary_default_def update_all_fields)

lemma init_loop_lookup:
  "init_loop es m k =
     (if entries_for k es = [] then m k else Some (verbatim (last (entries_for k es))))"
proof (induction es arbitrary: m)
  case Nil
  show ?case by (simp add: entries_for_def)
next
  case (Cons e es)
  show ?case
  proof (cases "executor_id e")
    case None
    then show ?thesis by (simp add: Cons.IH) (simp add: entries_for_def)
  next
    case (Some k')
    then show ?thesis
      by (simp add: Cons.IH Let_def subscript_assign_all del: fun_upd_apply)
        (simp add: entries_for_def)
  qed
qed

lemma entries_for_distinct:
  assumes "distinct (List.map_filter executor_id es)"
  shows "k \<in> set (List.map_filter executor_id es) \<Longrightarrow> \<exists>e. entries_for k es = [e]"
    and "k \<notin> set (List.map_filter executor_id es) \<Longrightarrow> entries_for k es = []"
  using assms
  by (induction es) (auto simp: entries_for_def split: option.splits)

lemma max_zero_word: "max (0 :: 'a::len word) x = x"
  by (simp add: max_def)

lemma init_loop_is_merge:
  assumes "distinct (reported_ids rsp)" and "set (reported_ids rsp) = K"
  shows "init_loop (resp_execution_summaries rsp) Map.empty = merge_into rsp (zero_map K)"
proof (rule ext)
  fix k
  show "init_loop (resp_execution_summaries rsp) Map.empty k = merge_into rsp (zero_map K) k"
  proof (cases "k \<in> K")
    case True
    with assms obtain e where "entries_for k (resp_execution_summaries rsp) = [e]"
      using entries_for_distinct(1) [of "resp_execution_summaries rsp" k]
      by (auto simp: reported_ids_def)
    with True show ?thesis
      by (simp add: init_loop_lookup merge_into_lookup zero_map_def merge_entry_def verbatim_def
          ExecutionSummary_default_def max_zero_word)
  next
    case False
    with assms have "entries_for k (resp_execution_summaries rsp) = []"
      using entries_for_distinct(2) [of "resp_execution_summaries rsp" k]
      by (auto simp: reported_ids_def)
    with False show ?thesis
      by (simp add: init_loop_lookup merge_into_lookup zero_map_def)
  qed
qed

lemma regular_no_warnings:
  assumes "set (reported_ids rsp) = dom m"
  shows "snd (merge_loop False (resp_execution_summaries rsp) m lg) = lg"
proof -
  have "filter (\<lambda>k. m k = None) (reported_ids rsp) = []"
    using assms by (auto simp: filter_empty_conv)
  then show ?thesis by (simp add: merge_loop_warnings reported_ids_def)
qed


lemma dom_zero_map: "dom (zero_map K) = K"
  by (auto simp: zero_map_def dom_def split: if_splits)

lemma merge_published_regular:
  assumes "0 < length (execution_summaries_inited s)" and "execution_summaries_inited s ! 0"
    and "0 < length (execution_summaries s)" and "dom (execution_summaries s ! 0) = K"
    and "resp_execution_summaries rsp = [] \<or> (distinct (reported_ids rsp) \<and> set (reported_ids rsp) = K)"
  shows "addRemoteExecutionSummaries rsp 0 False s =
     Inr (s\<lparr>execution_summaries :=
              (execution_summaries s)[0 := merge_into rsp (execution_summaries s ! 0)]\<rparr>)"
proof -
  let ?m = "execution_summaries s ! 0"
  let ?ml = "merge_loop False (resp_execution_summaries rsp) ?m (logged s)"
  have "snd ?ml = logged s"
  proof (cases "resp_execution_summaries rsp = []")
    case True
    then show ?thesis by simp
  next
    case False
    with assms(4,5) show ?thesis by (simp add: regular_no_warnings)
  qed
  moreover have "fst ?ml = merge_into rsp ?m"
    unfolding merge_into_def by (rule merge_loop_log_irrelevant)
  ultimately show ?thesis
    by (simp add: addRemote_published [OF assms(1-3)])
qed

lemma merge_reports_published:
  assumes "0 < length (execution_summaries_inited s)" and "execution_summaries_inited s ! 0"
    and "0 < length (execution_summaries s)" and "dom (execution_summaries s ! 0) = K"
    and "\<forall>rsp\<in>set rs. resp_execution_summaries rsp = []
            \<or> (distinct (reported_ids rsp) \<and> set (reported_ids rsp) = K)"
  shows "merge_reports rs s =
     Inr (s\<lparr>execution_summaries :=
              (execution_summaries s)[0 := fold merge_into rs (execution_summaries s ! 0)]\<rparr>)"
  using assms
proof (induction rs arbitrary: s)
  case Nil
  show ?case by simp
next
  case (Cons r rs)
  let ?s1 = "s\<lparr>execution_summaries :=
              (execution_summaries s)[0 := merge_into r (execution_summaries s ! 0)]\<rparr>"
  from Cons.prems(5) have r: "resp_execution_summaries r = []
      \<or> (distinct (reported_ids r) \<and> set (reported_ids r) = K)" by simp
  have step: "addRemoteExecutionSummaries r 0 False s = Inr ?s1"
    by (rule merge_published_regular [OF Cons.prems(1-4) r])
  have "merge_reports rs ?s1 =
     Inr (?s1\<lparr>execution_summaries :=
              (execution_summaries ?s1)[0 := fold merge_into rs (execution_summaries ?s1 ! 0)]\<rparr>)"
    using Cons.prems by (intro Cons.IH) (simp_all add: dom_merge_into)
  with step Cons.prems(3) show ?case by simp
qed

lemma merge_reports_fresh:
  assumes "0 < length (execution_summaries_inited s)" and "\<not> execution_summaries_inited s ! 0"
    and "0 < length (execution_summaries s)" and "execution_summaries s ! 0 = Map.empty"
    and "\<forall>rsp\<in>set rs. resp_execution_summaries rsp = []
            \<or> (distinct (reported_ids rsp) \<and> set (reported_ids rsp) = K)"
  shows "merge_reports rs s =
     Inr (if \<forall>rsp\<in>set rs. resp_execution_summaries rsp = [] then s
          else s\<lparr>execution_summaries :=
                   (execution_summaries s)[0 := fold merge_into rs (zero_map K)],
                 execution_summaries_inited := (execution_summaries_inited s)[0 := True]\<rparr>)"
  using assms(5)
proof (induction rs)
  case Nil
  show ?case by simp
next
  case (Cons r rs)
  show ?case
  proof (cases "resp_execution_summaries r = []")
    case True
    then have "addRemoteExecutionSummaries r 0 False s = Inr s"
      by (simp add: addRemoteExecutionSummaries_def)
    with True Cons show ?thesis by (simp add: merge_into_empty)
  next
    case False
    with Cons.prems have reg: "distinct (reported_ids r)" "set (reported_ids r) = K" by auto
    let ?s1 = "s\<lparr>execution_summaries := (execution_summaries s)[0 := merge_into r (zero_map K)],
                  execution_summaries_inited := (execution_summaries_inited s)[0 := True]\<rparr>"
    have step: "addRemoteExecutionSummaries r 0 False s = Inr ?s1"
      using False assms(1-4)
      by (simp add: addRemoteExecutionSummaries_def initRemoteExecutionSummaries_def
          init_loop_is_merge [OF reg])
    have "merge_reports rs ?s1 =
       Inr (?s1\<lparr>execution_summaries :=
              (execution_summaries ?s1)[0 := fold merge_into rs (execution_summaries ?s1 ! 0)]\<rparr>)"
      using Cons.prems assms(1,3)
      by (intro merge_reports_published [where K = K]) (simp_all add: dom_merge_into dom_zero_map)
    with step False assms(3) show ?thesis by simp
  qed
qed

lemma fold_merge_into_permute:
  assumes "mset rs = mset rs'"
  shows "fold merge_into rs m = fold merge_into rs' m"
proof -
  have "fold merge_into rs = fold merge_into rs'"
    by (rule fold_multiset_equiv [OF _ assms]) (simp add: fun_eq_iff merge_into_commute)
  then show ?thesis by simp
qed

lemma fold_merge_into_lookup:
  "fold merge_into rs m k =
     map_option
       (\<lambda>v. foldl (merge_entry False) v
              (concat (map (\<lambda>rsp. entries_for k (resp_execution_summaries rsp)) rs)))
       (m k)"
proof (induction rs arbitrary: m)
  case Nil
  show ?case by (simp add: option.map_ident)
next
  case (Cons r rs)
  have "fold merge_into (r # rs) m k = fold merge_into rs (merge_into r m) k" by simp
  also have "\<dots> = map_option
       (\<lambda>v. foldl (merge_entry False) v
              (concat (map (\<lambda>rsp. entries_for k (resp_execution_summaries rsp)) rs)))
       (merge_into r m k)"
    by (rule Cons.IH)
  also have "\<dots> = map_option
       (\<lambda>v. foldl (merge_entry False) v
              (concat (map (\<lambda>rsp. entries_for k (resp_execution_summaries rsp)) (r # rs))))
       (m k)"
    by (cases "m k") (simp_all add: merge_into_lookup)
  finally show ?case .
qed


section \<open>Published slots keep their operator ids\<close>

text \<open>
  C1. Once the published flag of a slot is true it stays true, and the set of operator ids of
  the slot's mapping is the same after any later \<^verbatim>\<open>addRemoteExecutionSummaries\<close> (whatever
  slot and mode it is called with), and so after any \<^verbatim>\<open>fetchRemoteResult\<close> and any
  \<^verbatim>\<open>readImpl\<close>: a later merge only rewrites the fields of entries that are already there.
\<close>

theorem published_slot_frozen:
  assumes "i < length (execution_summaries_inited s)" and "execution_summaries_inited s ! i"
  shows "(addRemoteExecutionSummaries rsp index is_streaming_call s = Inr s1 \<longrightarrow>
            execution_summaries_inited s1 ! i
            \<and> dom (execution_summaries s1 ! i) = dom (execution_summaries s ! i))
       \<and> (fetchRemoteResult is_streaming_reader remote_reader s = Some (fetched, s2) \<longrightarrow>
            execution_summaries_inited s2 ! i
            \<and> dom (execution_summaries s2 ! i) = dom (execution_summaries s ! i))
       \<and> (readImpl is_streaming_reader remote_reader s = Some (block, s3) \<longrightarrow>
            execution_summaries_inited s3 ! i
            \<and> dom (execution_summaries s3 ! i) = dom (execution_summaries s ! i))"
  using assms addRemote_frozen [of rsp index is_streaming_call s s1]
    fetchRemoteResult_frozen [of is_streaming_reader remote_reader s "(fetched, s2)"]
    readImpl_frozen [of is_streaming_reader remote_reader s block s3]
  by (simp add: published_frozen_def)

theorem published_slot_frozen_witness:
  "0 < length (execution_summaries_inited published_example)
   \<and> execution_summaries_inited published_example ! 0
   \<and> (\<exists>s1. addRemoteExecutionSummaries
              (report [summary ''opB'' 1 2 3 4, summary ''opA'' 250 25 2 1]) 0 True
              published_example = Inr s1
           \<and> execution_summaries_inited s1 ! 0
           \<and> dom (execution_summaries s1 ! 0) = {''opA''})"
proof -
  let ?rsp = "report [summary ''opB'' 1 2 3 4, summary ''opA'' 250 25 2 1]"
  have h1: "0 < length (execution_summaries_inited published_example)"
    by (simp add: published_example_def)
  have h2: "execution_summaries_inited published_example ! 0"
    by (simp add: published_example_def)
  obtain s1 where run: "addRemoteExecutionSummaries ?rsp 0 True published_example = Inr s1"
    by (simp add: addRemoteExecutionSummaries_def published_example_def report_def summary_def
        split: prod.splits)
  have keys: "dom (execution_summaries published_example ! 0) = {''opA''}"
    by (simp add: published_example_def)
  from published_slot_frozen [OF h1 h2, of ?rsp 0 True s1] run keys
  have "execution_summaries_inited s1 ! 0 \<and> dom (execution_summaries s1 ! 0) = {''opA''}"
    by simp
  with h1 h2 run show ?thesis by blast
qed

section \<open>Streaming merge\<close>

text \<open>
  C2. For a streaming reader, a result that carries a response is merged into the slot of its
  \<open>call_index\<close>: the fetch goes on (or returns \<open>true\<close>) with a table in which every other
  slot and flag is untouched, and a payload with summaries leaves that slot published. When
  the slot was already published, every operator id \<open>k\<close> of the slot holds, field by field,
  the maximum of its old value and of the values the payload reports for \<open>k\<close> (for one
  reported entry: \<open>max old incoming\<close>); ids the slot does not hold stay absent.
\<close>

theorem streaming_merge_is_maximum:
  assumes "r = remote_reader (stream_id s) (reader_pos s)"
    and "\<not> meet_error r" and "\<not> eof r" and "resp r = Some rsp" and "resp_error rsp = None"
    and "call_index r < length (execution_summaries_inited s)"
    and "call_index r < length (execution_summaries s)"
    and "call_index r < length (connection_profile_infos s)"
  shows "\<exists>s3.
      fetchRemoteResult True remote_reader s =
        (if rows (decode_detail r) = 0 then fetchRemoteResult True remote_reader s3
         else Some (Inr True, s3))
      \<and> length (execution_summaries s3) = length (execution_summaries s)
      \<and> (\<forall>j. j \<noteq> call_index r \<longrightarrow>
             execution_summaries s3 ! j = execution_summaries s ! j
             \<and> execution_summaries_inited s3 ! j = execution_summaries_inited s ! j)
      \<and> (resp_execution_summaries rsp \<noteq> [] \<longrightarrow> execution_summaries_inited s3 ! call_index r)
      \<and> (execution_summaries_inited s ! call_index r \<longrightarrow>
           (\<forall>k. (execution_summaries s3 ! call_index r) k =
             map_option
               (\<lambda>old.
                  \<lparr>time_processed_ns =
                     foldl max (time_processed_ns old)
                       (map pb_time_processed_ns (entries_for k (resp_execution_summaries rsp))),
                   num_produced_rows =
                     foldl max (num_produced_rows old)
                       (map pb_num_produced_rows (entries_for k (resp_execution_summaries rsp))),
                   num_iterations =
                     foldl max (num_iterations old)
                       (map pb_num_iterations (entries_for k (resp_execution_summaries rsp))),
                   concurrency =
                     foldl max (concurrency old)
                       (map pb_concurrency (entries_for k (resp_execution_summaries rsp)))\<rparr>)
               ((execution_summaries s ! call_index r) k)))"
proof -
  let ?idx = "call_index r"
  let ?s1 = "after_nextResult r s"
  have idx: "?idx = profile_index True r" by (simp add: profile_index_def)
  from fetch_data_routed
    [where rd = remote_reader and st = True, OF assms(1-5) idx assms(6-8)]
  obtain s2 where run: "addRemoteExecutionSummaries rsp ?idx True ?s1 = Inr s2"
    and fetch: "fetchRemoteResult True remote_reader s =
           (if rows (decode_detail r) = 0 then fetchRemoteResult True remote_reader (count_packet True r s2)
            else Some (Inr True, count_packet True r s2))"
    by blast
  let ?s3 = "count_packet True r s2"
  have s1: "execution_summaries ?s1 = execution_summaries s"
    "execution_summaries_inited ?s1 = execution_summaries_inited s" "logged ?s1 = logged s"
    by (simp_all add: after_nextResult_def)
  have len: "length (execution_summaries ?s3) = length (execution_summaries s)"
    using addRemote_lengths(1) [OF run] by (simp add: count_packet_table s1)
  have other: "\<forall>j. j \<noteq> ?idx \<longrightarrow>
             execution_summaries ?s3 ! j = execution_summaries s ! j
             \<and> execution_summaries_inited ?s3 ! j = execution_summaries_inited s ! j"
    using addRemote_other_slot [OF run] by (simp add: count_packet_table s1)
  have pub: "resp_execution_summaries rsp \<noteq> [] \<longrightarrow> execution_summaries_inited ?s3 ! ?idx"
    using addRemote_publishes [OF run] by (simp add: count_packet_table)
  have entry: "\<forall>k. (execution_summaries ?s3 ! ?idx) k =
             map_option
               (\<lambda>old.
                  \<lparr>time_processed_ns =
                     foldl max (time_processed_ns old)
                       (map pb_time_processed_ns (entries_for k (resp_execution_summaries rsp))),
                   num_produced_rows =
                     foldl max (num_produced_rows old)
                       (map pb_num_produced_rows (entries_for k (resp_execution_summaries rsp))),
                   num_iterations =
                     foldl max (num_iterations old)
                       (map pb_num_iterations (entries_for k (resp_execution_summaries rsp))),
                   concurrency =
                     foldl max (concurrency old)
                       (map pb_concurrency (entries_for k (resp_execution_summaries rsp)))\<rparr>)
               ((execution_summaries s ! ?idx) k)"
    if p: "execution_summaries_inited s ! ?idx"
  proof -
    have "addRemoteExecutionSummaries rsp ?idx True ?s1 =
       Inr (?s1\<lparr>execution_summaries :=
              (execution_summaries ?s1)
                [?idx := fst (merge_loop True (resp_execution_summaries rsp)
                                 (execution_summaries ?s1 ! ?idx) (logged ?s1))],
            logged := snd (merge_loop True (resp_execution_summaries rsp)
                             (execution_summaries ?s1 ! ?idx) (logged ?s1))\<rparr>)"
      using assms(6,7) p by (intro addRemote_published) (simp_all add: s1)
    with run have "execution_summaries s2 ! ?idx
        = fst (merge_loop True (resp_execution_summaries rsp) (execution_summaries s ! ?idx) (logged s))"
      using assms(7) by (auto simp: s1)
    then show ?thesis
      by (simp add: count_packet_table merge_loop_lookup foldl_merge_entry_streaming_eq)
  qed
  from fetch len other pub entry show ?thesis by blast
qed

theorem streaming_merge_is_maximum_witness:
  "\<not> meet_error (streaming_example_reader 0 0) \<and> \<not> eof (streaming_example_reader 0 0)
   \<and> resp (streaming_example_reader 0 0) = Some (report [summary ''opA'' 250 25 2 1])
   \<and> execution_summaries_inited published_example ! call_index (streaming_example_reader 0 0)
   \<and> (execution_summaries published_example ! 0) ''opA''
        = Some \<lparr>time_processed_ns = 100, num_produced_rows = 10, num_iterations = 1, concurrency = 1\<rparr>
   \<and> (\<exists>s3. fetchRemoteResult True streaming_example_reader published_example = Some (Inr True, s3)
          \<and> (execution_summaries s3 ! 0) ''opA''
               = Some \<lparr>time_processed_ns = 250, num_produced_rows = 25, num_iterations = 2,
                       concurrency = 1\<rparr>
          \<and> execution_summaries s3 ! 1 = execution_summaries published_example ! 1)"
proof -
  let ?s = published_example
  let ?r = "streaming_example_reader (stream_id ?s) (reader_pos ?s)"
  let ?rsp = "report [summary ''opA'' 250 25 2 1]"
  have r: "?r = streaming_example_reader 0 0"
    by (simp add: example_defs)
  have h: "\<not> meet_error ?r" "\<not> eof ?r" "resp ?r = Some ?rsp" "resp_error ?rsp = None"
    "call_index ?r < length (execution_summaries_inited ?s)"
    "call_index ?r < length (execution_summaries ?s)"
    "call_index ?r < length (connection_profile_infos ?s)"
    by (simp_all add: example_defs)
  have p: "execution_summaries_inited ?s ! call_index ?r" and i: "call_index ?r = 0"
    by (simp_all add: example_defs)
  from streaming_merge_is_maximum
    [where remote_reader = streaming_example_reader and s = ?s, OF refl h]
  obtain s3 where
    run: "fetchRemoteResult True streaming_example_reader ?s =
        (if rows (decode_detail ?r) = 0
         then fetchRemoteResult True streaming_example_reader s3 else Some (Inr True, s3))"
    and other: "\<forall>j. j \<noteq> call_index ?r \<longrightarrow>
             execution_summaries s3 ! j = execution_summaries ?s ! j
             \<and> execution_summaries_inited s3 ! j = execution_summaries_inited ?s ! j"
    and entry: "execution_summaries_inited ?s ! call_index ?r \<longrightarrow>
           (\<forall>k. (execution_summaries s3 ! call_index ?r) k =
             map_option
               (\<lambda>old.
                  \<lparr>time_processed_ns =
                     foldl max (time_processed_ns old)
                       (map pb_time_processed_ns (entries_for k (resp_execution_summaries ?rsp))),
                   num_produced_rows =
                     foldl max (num_produced_rows old)
                       (map pb_num_produced_rows (entries_for k (resp_execution_summaries ?rsp))),
                   num_iterations =
                     foldl max (num_iterations old)
                       (map pb_num_iterations (entries_for k (resp_execution_summaries ?rsp))),
                   concurrency =
                     foldl max (concurrency old)
                       (map pb_concurrency (entries_for k (resp_execution_summaries ?rsp)))\<rparr>)
               ((execution_summaries ?s ! call_index ?r) k))"
    by blast
  have "fetchRemoteResult True streaming_example_reader ?s = Some (Inr True, s3)"
    using run by (simp add: example_defs)
  moreover have "(execution_summaries s3 ! 0) ''opA''
               = Some \<lparr>time_processed_ns = 250, num_produced_rows = 25, num_iterations = 2,
                       concurrency = 1\<rparr>"
    using entry [rule_format, OF p, of "''opA''"] unfolding i
    by (simp add: example_defs entries_for_def)
  moreover have "execution_summaries s3 ! 1 = execution_summaries ?s ! 1"
    using other [rule_format, of 1] unfolding i by simp
  ultimately show ?thesis
    using h(1-3) p unfolding r by (auto simp add: example_defs)
qed

section \<open>Batch merge\<close>

text \<open>
  C3. For a batch reader, a result that carries a response is merged into slot 0, whatever
  its \<open>call_index\<close>: the fetch goes on (or returns \<open>true\<close>) with a table in which every other
  slot and flag is untouched, and a payload with summaries leaves slot 0 published. When slot
  0 was already published, every operator id \<open>k\<close> of it holds the maximum of its old time and
  the reported times, and its old rows, iterations and concurrency plus the reported ones
  (64-bit additions). Scenario: three contributors each reporting \<open>opA\<close> with 5 rows and time
  30 leave 15 rows and time 30 in slot 0.
\<close>

theorem batch_merge_is_sum:
  assumes "r = remote_reader (stream_id s) (reader_pos s)"
    and "\<not> meet_error r" and "\<not> eof r" and "resp r = Some rsp" and "resp_error rsp = None"
    and "0 < length (execution_summaries_inited s)"
    and "0 < length (execution_summaries s)"
    and "0 < length (connection_profile_infos s)"
  shows "(\<exists>s3.
      fetchRemoteResult False remote_reader s =
        (if rows (decode_detail r) = 0 then fetchRemoteResult False remote_reader s3
         else Some (Inr True, s3))
      \<and> length (execution_summaries s3) = length (execution_summaries s)
      \<and> (\<forall>j. j \<noteq> 0 \<longrightarrow>
             execution_summaries s3 ! j = execution_summaries s ! j
             \<and> execution_summaries_inited s3 ! j = execution_summaries_inited s ! j)
      \<and> (resp_execution_summaries rsp \<noteq> [] \<longrightarrow> execution_summaries_inited s3 ! 0)
      \<and> (execution_summaries_inited s ! 0 \<longrightarrow>
           (\<forall>k. (execution_summaries s3 ! 0) k =
             map_option
               (\<lambda>old.
                  \<lparr>time_processed_ns =
                     foldl max (time_processed_ns old)
                       (map pb_time_processed_ns (entries_for k (resp_execution_summaries rsp))),
                   num_produced_rows =
                     num_produced_rows old
                       + sum_list (map pb_num_produced_rows (entries_for k (resp_execution_summaries rsp))),
                   num_iterations =
                     num_iterations old
                       + sum_list (map pb_num_iterations (entries_for k (resp_execution_summaries rsp))),
                   concurrency =
                     concurrency old
                       + sum_list (map pb_concurrency (entries_for k (resp_execution_summaries rsp)))\<rparr>)
               ((execution_summaries s ! 0) k))))
    \<and> (\<exists>s'. read_loop 3 False three_contributors (TiRemoteBlockInputStream_new 3 0) = Some (None, s')
           \<and> (execution_summaries s' ! 0) ''opA''
                = Some \<lparr>time_processed_ns = 30, num_produced_rows = 15, num_iterations = 3,
                        concurrency = 3\<rparr>
           \<and> execution_summaries_inited s' = [True, False, False])"
proof -
  let ?idx = "0::nat"
  let ?s1 = "after_nextResult r s"
  have idx: "?idx = profile_index False r" by (simp add: profile_index_def)
  from fetch_data_routed
    [where rd = remote_reader and st = False, OF assms(1-5) idx assms(6-8)]
  obtain s2 where run: "addRemoteExecutionSummaries rsp ?idx False ?s1 = Inr s2"
    and fetch: "fetchRemoteResult False remote_reader s =
           (if rows (decode_detail r) = 0 then fetchRemoteResult False remote_reader (count_packet False r s2)
            else Some (Inr True, count_packet False r s2))"
    by blast
  let ?s3 = "count_packet False r s2"
  have s1: "execution_summaries ?s1 = execution_summaries s"
    "execution_summaries_inited ?s1 = execution_summaries_inited s" "logged ?s1 = logged s"
    by (simp_all add: after_nextResult_def)
  have len: "length (execution_summaries ?s3) = length (execution_summaries s)"
    using addRemote_lengths(1) [OF run] by (simp add: count_packet_table s1)
  have other: "\<forall>j. j \<noteq> ?idx \<longrightarrow>
             execution_summaries ?s3 ! j = execution_summaries s ! j
             \<and> execution_summaries_inited ?s3 ! j = execution_summaries_inited s ! j"
    using addRemote_other_slot [OF run] by (simp add: count_packet_table s1)
  have pub: "resp_execution_summaries rsp \<noteq> [] \<longrightarrow> execution_summaries_inited ?s3 ! ?idx"
    using addRemote_publishes [OF run] by (simp add: count_packet_table)
  have entry: "\<forall>k. (execution_summaries ?s3 ! ?idx) k =
             map_option
               (\<lambda>old.
                  \<lparr>time_processed_ns =
                     foldl max (time_processed_ns old)
                       (map pb_time_processed_ns (entries_for k (resp_execution_summaries rsp))),
                   num_produced_rows =
                     num_produced_rows old
                       + sum_list (map pb_num_produced_rows (entries_for k (resp_execution_summaries rsp))),
                   num_iterations =
                     num_iterations old
                       + sum_list (map pb_num_iterations (entries_for k (resp_execution_summaries rsp))),
                   concurrency =
                     concurrency old
                       + sum_list (map pb_concurrency (entries_for k (resp_execution_summaries rsp)))\<rparr>)
               ((execution_summaries s ! ?idx) k)"
    if p: "execution_summaries_inited s ! ?idx"
  proof -
    have "addRemoteExecutionSummaries rsp ?idx False ?s1 =
       Inr (?s1\<lparr>execution_summaries :=
              (execution_summaries ?s1)
                [?idx := fst (merge_loop False (resp_execution_summaries rsp)
                                 (execution_summaries ?s1 ! ?idx) (logged ?s1))],
            logged := snd (merge_loop False (resp_execution_summaries rsp)
                             (execution_summaries ?s1 ! ?idx) (logged ?s1))\<rparr>)"
      using assms(6,7) p by (intro addRemote_published) (simp_all add: s1)
    with run have "execution_summaries s2 ! ?idx
        = fst (merge_loop False (resp_execution_summaries rsp) (execution_summaries s ! ?idx) (logged s))"
      using assms(7) by (auto simp: s1)
    then show ?thesis
      by (simp add: count_packet_table merge_loop_lookup foldl_merge_entry_batch_eq)
  qed
  have scenario: "\<exists>s'. read_loop 3 False three_contributors (TiRemoteBlockInputStream_new 3 0)
                        = Some (None, s')
           \<and> (execution_summaries s' ! 0) ''opA''
                = Some \<lparr>time_processed_ns = 30, num_produced_rows = 15, num_iterations = 3,
                        concurrency = 3\<rparr>
           \<and> execution_summaries_inited s' = [True, False, False]"
    by (simp add: fetchRemoteResult_step run_defs example_defs numeral_3_eq_3)
  from fetch len other pub entry scenario show ?thesis by blast
qed

theorem batch_merge_is_sum_witness:
  "\<not> meet_error (three_contributors 0 0) \<and> \<not> eof (three_contributors 0 0)
   \<and> resp (three_contributors 0 0) = Some (report [summary ''opA'' 30 5 1 1])
   \<and> execution_summaries_inited batch_published_example ! 0
   \<and> (execution_summaries batch_published_example ! 0) ''opA''
        = Some \<lparr>time_processed_ns = 30, num_produced_rows = 5, num_iterations = 1, concurrency = 1\<rparr>
   \<and> (\<exists>s3. fetchRemoteResult False three_contributors batch_published_example = Some (Inr True, s3)
          \<and> (execution_summaries s3 ! 0) ''opA''
               = Some \<lparr>time_processed_ns = 30, num_produced_rows = 10, num_iterations = 2,
                       concurrency = 2\<rparr>
          \<and> execution_summaries s3 ! 1 = execution_summaries batch_published_example ! 1)"
proof -
  let ?s = batch_published_example
  let ?r = "three_contributors (stream_id ?s) (reader_pos ?s)"
  let ?rsp = "report [summary ''opA'' 30 5 1 1]"
  have r: "?r = three_contributors 0 0"
    by (simp add: example_defs)
  have h: "\<not> meet_error ?r" "\<not> eof ?r" "resp ?r = Some ?rsp" "resp_error ?rsp = None"
    "0 < length (execution_summaries_inited ?s)"
    "0 < length (execution_summaries ?s)"
    "0 < length (connection_profile_infos ?s)"
    by (simp_all add: example_defs)
  have p: "execution_summaries_inited ?s ! 0"
    by (simp add: example_defs)
  from batch_merge_is_sum [where remote_reader = three_contributors and s = ?s, OF refl h]
  obtain s3 where
    run: "fetchRemoteResult False three_contributors ?s =
        (if rows (decode_detail ?r) = 0
         then fetchRemoteResult False three_contributors s3 else Some (Inr True, s3))"
    and other: "\<forall>j. j \<noteq> 0 \<longrightarrow>
             execution_summaries s3 ! j = execution_summaries ?s ! j
             \<and> execution_summaries_inited s3 ! j = execution_summaries_inited ?s ! j"
    and entry: "execution_summaries_inited ?s ! 0 \<longrightarrow>
           (\<forall>k. (execution_summaries s3 ! 0) k =
             map_option
               (\<lambda>old.
                  \<lparr>time_processed_ns =
                     foldl max (time_processed_ns old)
                       (map pb_time_processed_ns (entries_for k (resp_execution_summaries ?rsp))),
                   num_produced_rows =
                     num_produced_rows old
                       + sum_list (map pb_num_produced_rows (entries_for k (resp_execution_summaries ?rsp))),
                   num_iterations =
                     num_iterations old
                       + sum_list (map pb_num_iterations (entries_for k (resp_execution_summaries ?rsp))),
                   concurrency =
                     concurrency old
                       + sum_list (map pb_concurrency (entries_for k (resp_execution_summaries ?rsp)))\<rparr>)
               ((execution_summaries ?s ! 0) k))"
    by blast
  have "fetchRemoteResult False three_contributors ?s = Some (Inr True, s3)"
    using run by (simp add: example_defs)
  moreover have "(execution_summaries s3 ! 0) ''opA''
               = Some \<lparr>time_processed_ns = 30, num_produced_rows = 10, num_iterations = 2,
                       concurrency = 2\<rparr>"
    using entry [rule_format, OF p, of "''opA''"] by (simp add: example_defs entries_for_def)
  moreover have "execution_summaries s3 ! 1 = execution_summaries ?s ! 1"
    using other [rule_format, of 1] by simp
  ultimately show ?thesis
    using h(1-3) p unfolding r by (auto simp add: example_defs)
qed

section \<open>Unknown operator ids after publication\<close>

text \<open>
  C5. A merge into a published slot never fails. An operator id the slot does not hold is not
  inserted; the log grows by exactly one warning for each reported occurrence of such an id,
  in order, and by nothing else; the table is the one the same payload without those entries
  would have produced, so the remaining summaries are processed as usual. The fetch is not
  disturbed either: when the result carried rows and a first block, \<^verbatim>\<open>readImpl\<close> returns
  that block.
\<close>

theorem unknown_operator_dropped:
  assumes "index < length (execution_summaries_inited s)"
    and "execution_summaries_inited s ! index"
    and "index < length (execution_summaries s)"
    and "known = (\<lambda>e. \<forall>k. executor_id e = Some k \<longrightarrow> (execution_summaries s ! index) k \<noteq> None)"
  shows "\<exists>s' s''.
      addRemoteExecutionSummaries rsp index is_streaming_call s = Inr s'
      \<and> (\<forall>k. (execution_summaries s ! index) k = None \<longrightarrow> (execution_summaries s' ! index) k = None)
      \<and> logged s' = logged s @
           map Warning_not_found
             (filter (\<lambda>k. (execution_summaries s ! index) k = None) (reported_ids rsp))
      \<and> addRemoteExecutionSummaries
           (rsp\<lparr>resp_execution_summaries := filter known (resp_execution_summaries rsp)\<rparr>)
           index is_streaming_call s = Inr s''
      \<and> s' = s''\<lparr>logged := logged s'\<rparr> \<and> logged s'' = logged s
      \<and> (r = remote_reader (stream_id s) (reader_pos s) \<and> \<not> meet_error r \<and> \<not> eof r
           \<and> resp r = Some rsp \<and> resp_error rsp = None
           \<and> index = profile_index is_streaming_call r
           \<and> index < length (connection_profile_infos s)
           \<and> rows (decode_detail r) \<noteq> 0
           \<and> block_queue s = [] \<and> decoded_blocks r = b # bs
           \<longrightarrow> (\<exists>s4. readImpl is_streaming_call remote_reader s = Some (Inr b, s4)))"
proof -
  let ?m = "execution_summaries s ! index"
  let ?es = "resp_execution_summaries rsp"
  let ?rsp' = "rsp\<lparr>resp_execution_summaries := filter known ?es\<rparr>"
  let ?ml = "merge_loop is_streaming_call ?es ?m (logged s)"
  let ?ml' = "merge_loop is_streaming_call (filter known ?es) ?m (logged s)"
  let ?s' = "s\<lparr>execution_summaries := (execution_summaries s)[index := fst ?ml], logged := snd ?ml\<rparr>"
  let ?s'' = "s\<lparr>execution_summaries := (execution_summaries s)[index := fst ?ml'], logged := snd ?ml'\<rparr>"
  have known: "known = (\<lambda>e. \<forall>k. executor_id e = Some k \<longrightarrow> k \<in> dom ?m)"
    by (auto simp: assms(4) fun_eq_iff)
  have run: "addRemoteExecutionSummaries rsp index is_streaming_call s = Inr ?s'"
    by (rule addRemote_published [OF assms(1-3)])
  have run': "addRemoteExecutionSummaries ?rsp' index is_streaming_call s = Inr ?s''"
    using addRemote_published [OF assms(1-3), of ?rsp' is_streaming_call] by simp
  have same: "fst ?ml' = fst ?ml"
    unfolding known by (rule merge_loop_skip_unknown [OF refl])
  have absent: "\<forall>k. ?m k = None \<longrightarrow> (execution_summaries ?s' ! index) k = None"
    using assms(3) by (simp add: merge_loop_lookup)
  have warn: "logged ?s' = logged s @ map Warning_not_found (filter (\<lambda>k. ?m k = None) (reported_ids rsp))"
    by (simp add: merge_loop_warnings reported_ids_def)
  have "List.map_filter executor_id (filter known ?es) = filter (\<lambda>k. ?m k \<noteq> None) (List.map_filter executor_id ?es)"
    unfolding assms(4) by (rule reported_ids_filter)
  then have quiet: "logged ?s'' = logged s"
    by (auto simp: merge_loop_warnings filter_empty_conv)
  have eq: "?s' = ?s''\<lparr>logged := logged ?s'\<rparr>"
    by (simp add: same)
  have deliver: "\<exists>s4. readImpl is_streaming_call remote_reader s = Some (Inr b, s4)"
    if r: "r = remote_reader (stream_id s) (reader_pos s)" "\<not> meet_error r" "\<not> eof r"
      "resp r = Some rsp" "resp_error rsp = None"
      and idx: "index = profile_index is_streaming_call r"
      and len: "index < length (connection_profile_infos s)"
      and nz: "rows (decode_detail r) \<noteq> 0"
      and q: "block_queue s = []" "decoded_blocks r = b # bs"
  proof -
    let ?s3 = "count_packet is_streaming_call r
                 ((after_nextResult r s)\<lparr>execution_summaries := (execution_summaries s)[index := fst ?ml],
                                            logged := snd ?ml\<rparr>)"
    have "fetchRemoteResult is_streaming_call remote_reader s =
            (if rows (decode_detail r) = 0 then fetchRemoteResult is_streaming_call remote_reader ?s3
             else Some (Inr True, ?s3))"
      by (rule fetch_data_published
        [where rd = remote_reader and st = is_streaming_call, OF r idx assms(1-3) len refl refl refl])
    with nz have f: "fetchRemoteResult is_streaming_call remote_reader s = Some (Inr True, ?s3)"
      by simp
    have "block_queue ?s3 = b # bs"
      using q by (simp add: count_packet_table after_nextResult_def)
    from readImpl_delivers [OF q(1) f this] show ?thesis ..
  qed
  show ?thesis
  proof (intro exI conjI)
    show "addRemoteExecutionSummaries rsp index is_streaming_call s = Inr ?s'" by (rule run)
    show "\<forall>k. ?m k = None \<longrightarrow> (execution_summaries ?s' ! index) k = None" by (rule absent)
    show "logged ?s' = logged s @ map Warning_not_found (filter (\<lambda>k. ?m k = None) (reported_ids rsp))"
      by (rule warn)
    show "addRemoteExecutionSummaries ?rsp' index is_streaming_call s = Inr ?s''" by (rule run')
    show "?s' = ?s''\<lparr>logged := logged ?s'\<rparr>" by (rule eq)
    show "logged ?s'' = logged s" by (rule quiet)
    show "r = remote_reader (stream_id s) (reader_pos s) \<and> \<not> meet_error r \<and> \<not> eof r
           \<and> resp r = Some rsp \<and> resp_error rsp = None
           \<and> index = profile_index is_streaming_call r
           \<and> index < length (connection_profile_infos s)
           \<and> rows (decode_detail r) \<noteq> 0
           \<and> block_queue s = [] \<and> decoded_blocks r = b # bs
           \<longrightarrow> (\<exists>s4. readImpl is_streaming_call remote_reader s = Some (Inr b, s4))"
      by (intro impI, elim conjE, rule deliver)
  qed
qed

theorem unknown_operator_dropped_witness:
  "0 < length (execution_summaries_inited published_example)
   \<and> execution_summaries_inited published_example ! 0
   \<and> 0 < length (execution_summaries published_example)
   \<and> (execution_summaries published_example ! 0) ''opB'' = None
   \<and> (\<exists>s'. addRemoteExecutionSummaries
              (report [summary ''opB'' 1 2 3 4, summary ''opA'' 250 25 2 1]) 0 True
              published_example = Inr s'
           \<and> (execution_summaries s' ! 0) ''opB'' = None
           \<and> logged s' = [Warning_not_found ''opB''])"
proof -
  let ?s = published_example
  let ?rsp = "report [summary ''opB'' 1 2 3 4, summary ''opA'' 250 25 2 1]"
  have h: "0 < length (execution_summaries_inited ?s)" "execution_summaries_inited ?s ! 0"
    "0 < length (execution_summaries ?s)"
    by (simp_all add: example_defs)
  have none: "(execution_summaries ?s ! 0) ''opB'' = None"
    by (simp add: example_defs)
  from unknown_operator_dropped [OF h refl, of ?rsp True]
  obtain s' where run: "addRemoteExecutionSummaries ?rsp 0 True ?s = Inr s'"
    and absent: "\<forall>k. (execution_summaries ?s ! 0) k = None \<longrightarrow> (execution_summaries s' ! 0) k = None"
    and warn: "logged s' = logged ?s @
           map Warning_not_found
             (filter (\<lambda>k. (execution_summaries ?s ! 0) k = None) (reported_ids ?rsp))"
    by blast
  from absent none have "(execution_summaries s' ! 0) ''opB'' = None" by blast
  moreover from warn have "logged s' = [Warning_not_found ''opB'']"
    by (simp add: example_defs reported_ids_def)
  ultimately show ?thesis using h none run by blast
qed

section \<open>Transport failure\<close>

text \<open>
  C6, as the claim states it, fails: the table and the counters are not always left as the
  call of \<^verbatim>\<open>readImpl\<close> found them. A batch reader returns an empty payload of ten bytes that
  carries a summary, and then fails. One call of \<^verbatim>\<open>readImpl\<close> consumes both results and throws
  the reader's message, but profile 0 has counted the packet and its bytes and slot 0 has been
  published with the reported operator: what the empty payload did is not undone.
\<close>

theorem transport_failure_keeps_earlier_payloads:
  "map_option fst (readImpl False empty_then_failure (TiRemoteBlockInputStream_new 1 0))
     = Some (Inl (Exception ''connection reset''))
   \<and> connection_profile_infos (TiRemoteBlockInputStream_new 1 0 :: nat TiRemoteBlockInputStream)
       = [\<lparr>packets = 0, bytes = 0\<rparr>]
   \<and> map_option (connection_profile_infos \<circ> snd)
       (readImpl False empty_then_failure (TiRemoteBlockInputStream_new 1 0))
       = Some [\<lparr>packets = 1, bytes = 10\<rparr>]
   \<and> execution_summaries_inited (TiRemoteBlockInputStream_new 1 0 :: nat TiRemoteBlockInputStream)
       = [False]
   \<and> map_option (execution_summaries_inited \<circ> snd)
       (readImpl False empty_then_failure (TiRemoteBlockInputStream_new 1 0))
       = Some [True]
   \<and> map_option (\<lambda>y. map dom (execution_summaries (snd y)))
       (readImpl False empty_then_failure (TiRemoteBlockInputStream_new 1 0))
       = Some [{''opA''}]"
  by (simp add: fetchRemoteResult_step run_defs example_defs)

text \<open>
  C6, amended. Let the next \<open>k\<close> results of the reader be empty payloads and let the result
  after them report a transport failure. Then \<^verbatim>\<open>fetchRemoteResult\<close> throws, and so does
  \<^verbatim>\<open>readImpl\<close> when it had to fetch. Unless one of the empty payloads was routed to a slot
  that does not exist (undefined behaviour, excluded when the indices are in range), the
  exception carries \<open>error_msg\<close> unchanged and the reader has been called exactly \<open>k + 1\<close>
  times, the failing call once (no retry). Handling the failure changes nothing but the log:
  with \<open>sk\<close> the members when the failing \<^verbatim>\<open>nextResult\<close> is called, the summary table, its
  flags, the connection profiles and \<open>total_rows\<close> afterwards are those of \<open>sk\<close>, and the queue
  is that of \<open>sk\<close> plus whatever the failing call itself pushed. \<open>total_rows\<close> is also what it
  was when the call began; the table and the profiles are as the empty payloads before the
  failure left them, and for \<open>k = 0\<close> the members \<open>sk\<close> are those the call began with.
\<close>

theorem transport_failure_is_fatal_after_self_calls:
  assumes "\<forall>j<k. empty_payload (remote_reader (stream_id s) (reader_pos s + j))"
    and "final = remote_reader (stream_id s) (reader_pos s + k)"
    and "meet_error final"
  shows "\<exists>e s'.
      fetchRemoteResult is_streaming_reader remote_reader s = Some (Inl e, s')
      \<and> (block_queue s = [] \<longrightarrow>
            readImpl is_streaming_reader remote_reader s = Some (Inl e, s'))
      \<and> (e = UndefinedBehaviour
            \<and> after_self_calls k is_streaming_reader remote_reader s = None
          \<or> e = Exception (error_msg final)
            \<and> (\<exists>sk. after_self_calls k is_streaming_reader remote_reader s = Some sk
                 \<and> reader_pos sk = reader_pos s + k
                 \<and> reader_pos s' = reader_pos s + k + 1
                 \<and> block_queue s' = block_queue sk @ decoded_blocks final
                 \<and> execution_summaries s' = execution_summaries sk
                 \<and> execution_summaries_inited s' = execution_summaries_inited sk
                 \<and> connection_profile_infos s' = connection_profile_infos sk
                 \<and> total_rows s' = total_rows sk
                 \<and> total_rows s' = total_rows s
                 \<and> logged s' = logged sk @ [Warning_remote_error (error_msg final)]))
      \<and> ((\<forall>j<k. index_in_range is_streaming_reader
                     (remote_reader (stream_id s) (reader_pos s + j)) s)
            \<longrightarrow> e = Exception (error_msg final))
      \<and> (k = 0 \<longrightarrow> after_self_calls k is_streaming_reader remote_reader s = Some s)"
proof (cases "after_self_calls k is_streaming_reader remote_reader s")
  case None
  from after_self_calls_None [where rd = remote_reader and s = s and st = is_streaming_reader, OF assms(1) None] obtain s' where
    run: "fetchRemoteResult is_streaming_reader remote_reader s = Some (Inl UndefinedBehaviour, s')" ..
  have r: "\<not> (\<forall>j<k. index_in_range is_streaming_reader
                     (remote_reader (stream_id s) (reader_pos s + j)) s)"
    using after_self_calls_in_range [where rd = remote_reader and s = s and st = is_streaming_reader, OF assms(1)] None by auto
  have k: "k \<noteq> 0" using None by (cases k) simp_all
  have rd: "block_queue s = [] \<longrightarrow>
      readImpl is_streaming_reader remote_reader s = Some (Inl UndefinedBehaviour, s')"
    using run by (simp add: readImpl_def)
  show ?thesis
    apply (rule exI [of _ UndefinedBehaviour])
    apply (rule exI [of _ s'])
    using run rd r k None apply (simp only: simp_thms)
    done
next
  case (Some sk)
  note a = after_self_calls_Some [OF Some]
  from a assms(2) have fin: "remote_reader (stream_id sk) (reader_pos sk) = final" by simp
  define s' where
    "s' = (after_nextResult final sk)\<lparr>logged := logged sk @ [Warning_remote_error (error_msg final)]\<rparr>"
  have step: "fetch_step is_streaming_reader remote_reader sk = Inl (Inl (Exception (error_msg final)), s')"
    using assms(3) fin by (simp add: fetch_step_def Let_def after_nextResult_def s'_def)
  have "fetchRemoteResult is_streaming_reader remote_reader sk
               = Some (Inl (Exception (error_msg final)), s')"
    by (subst fetchRemoteResult_step) (simp add: step)
  with a have run: "fetchRemoteResult is_streaming_reader remote_reader s
               = Some (Inl (Exception (error_msg final)), s')" by simp
  then have rd: "block_queue s = [] \<longrightarrow>
      readImpl is_streaming_reader remote_reader s = Some (Inl (Exception (error_msg final)), s')"
    by (simp add: readImpl_def)
  have fields: "reader_pos sk = reader_pos s + k"
    "reader_pos s' = reader_pos s + k + 1"
    "block_queue s' = block_queue sk @ decoded_blocks final"
    "execution_summaries s' = execution_summaries sk"
    "execution_summaries_inited s' = execution_summaries_inited sk"
    "connection_profile_infos s' = connection_profile_infos sk"
    "total_rows s' = total_rows sk"
    "total_rows sk = total_rows s"
    "logged s' = logged sk @ [Warning_remote_error (error_msg final)]"
    using a by (simp_all add: after_nextResult_def s'_def)
  show ?thesis
    apply (rule exI [of _ "Exception (error_msg final)"])
    apply (rule exI [of _ s'])
    apply (simp add: run rd Some fields)
    done
qed

theorem transport_failure_is_fatal_after_self_calls_witness:
  "empty_payload (empty_then_failure 0 0)
   \<and> meet_error (empty_then_failure 0 1)
   \<and> (\<exists>s'. readImpl False empty_then_failure (TiRemoteBlockInputStream_new 1 0)
               = Some (Inl (Exception ''connection reset''), s')
           \<and> reader_pos s' = 2
           \<and> block_queue s' = []
           \<and> total_rows s' = 0
           \<and> connection_profile_infos s' = [\<lparr>packets = 1, bytes = 10\<rparr>]
           \<and> execution_summaries_inited s' = [True])"
proof -
  let ?s = "TiRemoteBlockInputStream_new 1 0 :: nat TiRemoteBlockInputStream"
  let ?final = "empty_then_failure (stream_id ?s) (reader_pos ?s + 1)"
  have pos: "stream_id ?s = 0" "reader_pos ?s = 0" "block_queue ?s = []" "total_rows ?s = 0"
    by (simp_all add: example_defs)
  have e: "\<forall>j<1. empty_payload (empty_then_failure (stream_id ?s) (reader_pos ?s + j))"
    unfolding pos by (simp add: example_defs empty_payload_def response_error_def)
  have f: "meet_error ?final" unfolding pos by (simp add: example_defs)
  have msg: "error_msg (empty_then_failure 0 (Suc 0)) = ''connection reset''"
    "decoded_blocks (empty_then_failure 0 (Suc 0)) = []"
    by (simp_all add: example_defs)
  have r: "\<forall>j<1. index_in_range False (empty_then_failure (stream_id ?s) (reader_pos ?s + j)) ?s"
    by (simp add: index_in_range_def profile_index_def example_defs)
  have sk: "\<exists>sk. after_self_calls 1 False empty_then_failure ?s = Some sk
      \<and> block_queue sk = []
      \<and> connection_profile_infos sk = [\<lparr>packets = 1, bytes = 10\<rparr>]
      \<and> execution_summaries_inited sk = [True]"
    by (simp add: run_defs example_defs)
  from transport_failure_is_fatal_after_self_calls
    [where remote_reader = empty_then_failure and s = ?s and k = 1 and is_streaming_reader = False,
      OF e refl f] r
  obtain s' sk' where
    run: "readImpl False empty_then_failure ?s = Some (Inl (Exception (error_msg ?final)), s')"
    and "after_self_calls 1 False empty_then_failure ?s = Some sk'"
    and "reader_pos s' = reader_pos ?s + 1 + 1"
    and "block_queue s' = block_queue sk' @ decoded_blocks ?final"
    and "execution_summaries_inited s' = execution_summaries_inited sk'"
    and "connection_profile_infos s' = connection_profile_infos sk'"
    and "total_rows s' = total_rows ?s"
    unfolding pos(3) by auto
  with sk have a: "\<exists>s'. readImpl False empty_then_failure ?s
               = Some (Inl (Exception ''connection reset''), s')
           \<and> reader_pos s' = 2
           \<and> block_queue s' = []
           \<and> total_rows s' = 0
           \<and> connection_profile_infos s' = [\<lparr>packets = 1, bytes = 10\<rparr>]
           \<and> execution_summaries_inited s' = [True]"
    unfolding pos by (auto simp: msg)
  have h: "empty_payload (empty_then_failure 0 0) \<and> meet_error (empty_then_failure 0 1)"
    by (simp add: example_defs empty_payload_def response_error_def)
  from h a show ?thesis by (simp only: simp_thms)
qed

section \<open>Results of zero rows\<close>




section \<open>The total of rows\<close>

text \<open>
  C9. After any number of \<^verbatim>\<open>readImpl\<close> calls on a new stream, \<open>total_rows\<close> is the sum
  (a 64-bit sum, as the counter is) of the rows of the decode metadata of the results fetched
  so far, zero-row results included; a result that ended the fetch before line 164 (transport
  failure, end of stream, response error) contributes nothing, which is its own row count
  when it carries none. \<^verbatim>\<open>readSuffixImpl\<close> logs exactly this total. As long as the sum of the
  row counts stays below \<open>2 ^ 64\<close>, it is the sum of natural numbers.
\<close>

theorem total_rows_is_sum_of_fetched_rows:
  assumes "read_loop n is_streaming_reader remote_reader (TiRemoteBlockInputStream_new k sid)
             = Some (e, s')"
    and "e \<noteq> Some UndefinedBehaviour"
  shows "total_rows s' = sum_list (map (\<lambda>i. counted_rows (remote_reader sid i)) [0..<reader_pos s'])
    \<and> logged (readSuffixImpl s') = logged s' @ [Debug_finish (total_rows s')]
    \<and> ((\<forall>i<reader_pos s'. counted_rows (remote_reader sid i)
                              = rows (decode_detail (remote_reader sid i))) \<longrightarrow>
         total_rows s'
           = sum_list (map (\<lambda>i. rows (decode_detail (remote_reader sid i))) [0..<reader_pos s']))
    \<and> (sum_list (map (\<lambda>i. unat (counted_rows (remote_reader sid i))) [0..<reader_pos s']) < 2 ^ 64 \<longrightarrow>
         unat (total_rows s')
           = sum_list (map (\<lambda>i. unat (counted_rows (remote_reader sid i))) [0..<reader_pos s']))"
proof -
  let ?s = "TiRemoteBlockInputStream_new k sid :: 'a TiRemoteBlockInputStream"
  have init: "total_rows ?s = 0" "reader_pos ?s = 0" "stream_id ?s = sid"
    by (simp_all add: TiRemoteBlockInputStream_new_def)
  from read_loop_total_rows [OF assms] init
  have total: "total_rows s'
      = sum_list (map (\<lambda>i. counted_rows (remote_reader sid i)) [0..<reader_pos s'])"
    by simp
  have suffix: "logged (readSuffixImpl s') = logged s' @ [Debug_finish (total_rows s')]"
    by (simp add: readSuffixImpl_def)
  have all: "total_rows s'
           = sum_list (map (\<lambda>i. rows (decode_detail (remote_reader sid i))) [0..<reader_pos s'])"
    if "\<forall>i<reader_pos s'. counted_rows (remote_reader sid i)
                              = rows (decode_detail (remote_reader sid i))"
  proof -
    have "map (\<lambda>i. counted_rows (remote_reader sid i)) [0..<reader_pos s']
        = map (\<lambda>i. rows (decode_detail (remote_reader sid i))) [0..<reader_pos s']"
      using that by simp
    with total show ?thesis by simp
  qed
  have nat: "unat (total_rows s')
           = sum_list (map (\<lambda>i. unat (counted_rows (remote_reader sid i))) [0..<reader_pos s'])"
    if "sum_list (map (\<lambda>i. unat (counted_rows (remote_reader sid i))) [0..<reader_pos s']) < 2 ^ 64"
    using that unfolding total by (simp add: unat_sum_list comp_def)
  from total suffix all nat show ?thesis by blast
qed

theorem total_rows_is_sum_of_fetched_rows_witness:
  "\<exists>s'. read_loop 3 False empty_then_data (TiRemoteBlockInputStream_new 1 0) = Some (None, s')
      \<and> reader_pos s' = 4
      \<and> total_rows s' = 2
      \<and> map (\<lambda>i. rows (decode_detail (empty_then_data 0 i))) [0..<4] = [0, 0, 2, 0]"
proof -
  obtain s' where run: "read_loop 3 False empty_then_data (TiRemoteBlockInputStream_new 1 0)
                          = Some (None, s')"
    and pos: "reader_pos s' = 4"
    by (simp add: fetchRemoteResult_step run_defs example_defs numeral_3_eq_3)
  have e: "(None :: error option) \<noteq> Some UndefinedBehaviour" by simp
  have rs: "map (\<lambda>i. rows (decode_detail (empty_then_data 0 i))) [0..<4] = [0, 0, 2, 0]"
    by (simp add: example_defs eval_nat_numeral)
  have cs: "\<forall>i<4. counted_rows (empty_then_data 0 i) = rows (decode_detail (empty_then_data 0 i))"
    by (auto simp: example_defs counted_rows_def response_error_def less_Suc_eq eval_nat_numeral)
  note t = total_rows_is_sum_of_fetched_rows
    [OF run e, THEN conjunct2, THEN conjunct2, THEN conjunct1, unfolded pos, THEN mp, OF cs]
  have "total_rows s' = sum_list (map (\<lambda>i. rows (decode_detail (empty_then_data 0 i))) [0..<4])"
    by (rule t)
  then have tr: "total_rows s' = 2" unfolding rs by simp
  show ?thesis
    by (rule exI [of _ s']) (simp only: run pos rs tr simp_thms)
qed

section \<open>A batch reader counts on profile 0\<close>

text \<open>
  C10. For a batch reader, whatever is read, the vector of connection profiles keeps its
  length and every entry but the first keeps its value. Starting from a new stream over \<open>k\<close>
  sources, entries \<open>1\<close> to \<open>k - 1\<close> are therefore still \<open>packets = 0, bytes = 0\<close>.
\<close>

theorem batch_profile_only_index_0:
  assumes "read_loop n False remote_reader s = Some (e, s')"
  shows "length (connection_profile_infos s') = length (connection_profile_infos s)
    \<and> (\<forall>i. 0 < i \<longrightarrow> connection_profile_infos s' ! i = connection_profile_infos s ! i)
    \<and> (s = TiRemoteBlockInputStream_new k sid \<longrightarrow>
         length (connection_profile_infos s') = k
         \<and> (\<forall>i. 0 < i \<and> i < k \<longrightarrow> connection_profile_infos s' ! i = \<lparr>packets = 0, bytes = 0\<rparr>))"
  using read_loop_batch_profile [OF assms]
  by (simp add: TiRemoteBlockInputStream_new_def)

theorem batch_profile_only_index_0_witness:
  "\<exists>s'. read_loop 3 False three_contributors (TiRemoteBlockInputStream_new 3 0) = Some (None, s')
      \<and> connection_profile_infos s'
           = [\<lparr>packets = 3, bytes = 120\<rparr>, \<lparr>packets = 0, bytes = 0\<rparr>, \<lparr>packets = 0, bytes = 0\<rparr>]"
proof -
  obtain s' where run: "read_loop 3 False three_contributors (TiRemoteBlockInputStream_new 3 0)
                          = Some (None, s')"
    and first: "connection_profile_infos s' ! 0 = \<lparr>packets = 3, bytes = 120\<rparr>"
    by (simp add: fetchRemoteResult_step run_defs example_defs numeral_3_eq_3)
  note t = batch_profile_only_index_0
    [OF run, of 3 0, THEN conjunct2, THEN conjunct2, THEN mp, OF refl]
  from t have len: "length (connection_profile_infos s') = 3"
    and rest: "\<forall>i. 0 < i \<and> i < 3 \<longrightarrow> connection_profile_infos s' ! i = \<lparr>packets = 0, bytes = 0\<rparr>"
    by blast+
  from rest have "connection_profile_infos s' ! 1 = \<lparr>packets = 0, bytes = 0\<rparr>"
    "connection_profile_infos s' ! 2 = \<lparr>packets = 0, bytes = 0\<rparr>" by simp_all
  with first len have "connection_profile_infos s'
           = [\<lparr>packets = 3, bytes = 120\<rparr>, \<lparr>packets = 0, bytes = 0\<rparr>, \<lparr>packets = 0, bytes = 0\<rparr>]"
    by (auto simp: list_eq_iff_nth_eq less_Suc_eq eval_nat_numeral)
  with run show ?thesis
    by (intro exI [of _ s']) (simp only: simp_thms)
qed

section \<open>Order of arrival of batch reports\<close>

text \<open>
  C4, as the claim states it, fails: the first report that carries summaries is stored
  verbatim and fixes the operator ids of slot 0, and only later reports are added up. With
  reports over different operators, the operator of the second report is dropped, so the
  order decides which operator slot 0 holds. With an operator listed twice in one report, the
  first report keeps the last of the two entries where a later report adds both.
\<close>

theorem batch_merge_depends_on_first_report:
  "slot_entry (merge_reports [report [summary ''opA'' 30 5 1 1], report [summary ''opB'' 40 7 1 1]]
                 (TiRemoteBlockInputStream_new 1 0 :: nat TiRemoteBlockInputStream)) 0 ''opA''
     \<noteq> slot_entry (merge_reports [report [summary ''opB'' 40 7 1 1], report [summary ''opA'' 30 5 1 1]]
                 (TiRemoteBlockInputStream_new 1 0 :: nat TiRemoteBlockInputStream)) 0 ''opA''
   \<and> slot_entry (merge_reports [report [summary ''opA'' 30 1 1 1, summary ''opA'' 30 2 1 1],
                                 report [summary ''opA'' 30 10 1 1]]
                 (TiRemoteBlockInputStream_new 1 0 :: nat TiRemoteBlockInputStream)) 0 ''opA''
     \<noteq> slot_entry (merge_reports [report [summary ''opA'' 30 10 1 1],
                                 report [summary ''opA'' 30 1 1 1, summary ''opA'' 30 2 1 1]]
                 (TiRemoteBlockInputStream_new 1 0 :: nat TiRemoteBlockInputStream)) 0 ''opA''"
  by (simp add: slot_entry_def run_defs example_defs)

text \<open>
  C4, amended. Let every batch report that carries summaries list the same operator ids, each
  once. Then merging the reports into a new stream gives the same members in every order of
  arrival, and it never fails; slot 0 then holds exactly those operators, each with the
  maximum of all reported times and the (64-bit) sums of all reported rows, iterations and
  concurrencies.
\<close>

theorem batch_merge_order_independent:
  assumes "mset reports = mset reports'"
    and "\<forall>rsp\<in>set reports. resp_execution_summaries rsp = []
            \<or> (distinct (reported_ids rsp) \<and> set (reported_ids rsp) = K)"
    and "0 < n" and "s = TiRemoteBlockInputStream_new n sid"
  shows "merge_reports reports s = merge_reports reports' s
    \<and> (\<exists>s'. merge_reports reports s = Inr s'
          \<and> ((\<exists>rsp\<in>set reports. resp_execution_summaries rsp \<noteq> []) \<longrightarrow>
               dom (execution_summaries s' ! 0) = K
               \<and> (\<forall>k\<in>K. (execution_summaries s' ! 0) k =
                     Some \<lparr>time_processed_ns =
                             foldl max 0 (map pb_time_processed_ns
                               (concat (map (\<lambda>rsp. entries_for k (resp_execution_summaries rsp)) reports))),
                           num_produced_rows =
                             sum_list (map pb_num_produced_rows
                               (concat (map (\<lambda>rsp. entries_for k (resp_execution_summaries rsp)) reports))),
                           num_iterations =
                             sum_list (map pb_num_iterations
                               (concat (map (\<lambda>rsp. entries_for k (resp_execution_summaries rsp)) reports))),
                           concurrency =
                             sum_list (map pb_concurrency
                               (concat (map (\<lambda>rsp. entries_for k (resp_execution_summaries rsp)) reports)))\<rparr>)))"
proof -
  let ?s = s
  let ?s' = "if \<forall>rsp\<in>set reports. resp_execution_summaries rsp = [] then ?s
          else ?s\<lparr>execution_summaries :=
                   (execution_summaries ?s)[0 := fold merge_into reports (zero_map K)],
                 execution_summaries_inited := (execution_summaries_inited ?s)[0 := True]\<rparr>"
  have fresh: "0 < length (execution_summaries_inited ?s)" "\<not> execution_summaries_inited ?s ! 0"
    "0 < length (execution_summaries ?s)" "execution_summaries ?s ! 0 = Map.empty"
    using assms(3) by (simp_all add: assms(4) TiRemoteBlockInputStream_new_def)
  have sets: "set reports' = set reports"
    using assms(1) by (metis mset_eq_setD)
  with assms(2) have reg': "\<forall>rsp\<in>set reports'. resp_execution_summaries rsp = []
            \<or> (distinct (reported_ids rsp) \<and> set (reported_ids rsp) = K)"
    by simp
  have run: "merge_reports reports ?s = Inr ?s'"
    by (rule merge_reports_fresh [OF fresh assms(2)])
  have run': "merge_reports reports' ?s = Inr ?s'"
    unfolding merge_reports_fresh [OF fresh reg'] sets
      fold_merge_into_permute [OF assms(1), symmetric] ..
  have slot: "execution_summaries ?s' ! 0 = fold merge_into reports (zero_map K)"
    if "\<exists>rsp\<in>set reports. resp_execution_summaries rsp \<noteq> []"
    using that fresh(3) by auto
  have keys: "dom (fold merge_into reports (zero_map K)) = K"
    by (auto simp: dom_def fold_merge_into_lookup zero_map_def split: if_splits)
  have entry: "fold merge_into reports (zero_map K) k =
                     Some \<lparr>time_processed_ns =
                             foldl max 0 (map pb_time_processed_ns
                               (concat (map (\<lambda>rsp. entries_for k (resp_execution_summaries rsp)) reports))),
                           num_produced_rows =
                             sum_list (map pb_num_produced_rows
                               (concat (map (\<lambda>rsp. entries_for k (resp_execution_summaries rsp)) reports))),
                           num_iterations =
                             sum_list (map pb_num_iterations
                               (concat (map (\<lambda>rsp. entries_for k (resp_execution_summaries rsp)) reports))),
                           concurrency =
                             sum_list (map pb_concurrency
                               (concat (map (\<lambda>rsp. entries_for k (resp_execution_summaries rsp)) reports)))\<rparr>"
    if "k \<in> K" for k
    using that
    by (simp add: fold_merge_into_lookup zero_map_def foldl_merge_entry_batch_eq
        ExecutionSummary_default_def)
  show ?thesis
  proof (intro conjI exI [of _ ?s'] impI ballI)
    show "merge_reports reports ?s = merge_reports reports' ?s" by (simp only: run run')
    show "merge_reports reports ?s = Inr ?s'" by (rule run)
    show "dom (execution_summaries ?s' ! 0) = K"
      if "\<exists>rsp\<in>set reports. resp_execution_summaries rsp \<noteq> []"
      by (simp only: slot [OF that] keys)
    show "(execution_summaries ?s' ! 0) k =
                     Some \<lparr>time_processed_ns =
                             foldl max 0 (map pb_time_processed_ns
                               (concat (map (\<lambda>rsp. entries_for k (resp_execution_summaries rsp)) reports))),
                           num_produced_rows =
                             sum_list (map pb_num_produced_rows
                               (concat (map (\<lambda>rsp. entries_for k (resp_execution_summaries rsp)) reports))),
                           num_iterations =
                             sum_list (map pb_num_iterations
                               (concat (map (\<lambda>rsp. entries_for k (resp_execution_summaries rsp)) reports))),
                           concurrency =
                             sum_list (map pb_concurrency
                               (concat (map (\<lambda>rsp. entries_for k (resp_execution_summaries rsp)) reports)))\<rparr>"
      if "\<exists>rsp\<in>set reports. resp_execution_summaries rsp \<noteq> []" and "k \<in> K" for k
      by (simp only: slot [OF that(1)] entry [OF that(2)])
  qed
qed

theorem batch_merge_order_independent_witness:
  "mset [report_one, report_two] = mset [report_two, report_one]
   \<and> distinct (reported_ids report_one) \<and> set (reported_ids report_one) = {''opA'', ''opB''}
   \<and> distinct (reported_ids report_two) \<and> set (reported_ids report_two) = {''opA'', ''opB''}
   \<and> merge_reports [report_one, report_two] (TiRemoteBlockInputStream_new 3 0 :: nat TiRemoteBlockInputStream)
       = merge_reports [report_two, report_one] (TiRemoteBlockInputStream_new 3 0)
   \<and> slot_entry (merge_reports [report_two, report_one]
                   (TiRemoteBlockInputStream_new 3 0 :: nat TiRemoteBlockInputStream)) 0 ''opA''
       = Some \<lparr>time_processed_ns = 40, num_produced_rows = 11, num_iterations = 2, concurrency = 3\<rparr>"
proof -
  let ?s = "TiRemoteBlockInputStream_new 3 0 :: nat TiRemoteBlockInputStream"
  have p: "mset [report_one, report_two] = mset [report_two, report_one]"
    by simp
  have reg: "\<forall>rsp\<in>set [report_one, report_two]. resp_execution_summaries rsp = []
          \<or> (distinct (reported_ids rsp) \<and> set (reported_ids rsp) = {''opA'', ''opB''})"
    by (auto simp: example_defs reported_ids_def)
  have n: "(0::nat) < 3" by simp
  note t = batch_merge_order_independent [OF p reg n refl, of 0]
  from t have same: "merge_reports [report_one, report_two] ?s
                       = merge_reports [report_two, report_one] ?s"
    by (rule conjunct1)
  have "slot_entry (merge_reports [report_one, report_two] ?s) 0 ''opA''
       = Some \<lparr>time_processed_ns = 40, num_produced_rows = 11, num_iterations = 2, concurrency = 3\<rparr>"
    by (simp add: slot_entry_def run_defs example_defs)
  moreover have "distinct (reported_ids report_one) \<and> set (reported_ids report_one) = {''opA'', ''opB''}
      \<and> distinct (reported_ids report_two) \<and> set (reported_ids report_two) = {''opA'', ''opB''}"
    by (auto simp: example_defs reported_ids_def)
  ultimately show ?thesis using same p by (simp only: simp_thms)
qed

end
